theory Spec2Isabelle
  imports Complex_Main "HOL-Library.AList"
begin

section \<open>Python values\<close>

text \<open>
  A Python \<open>str\<close> is a sequence of Unicode code points; \<open>len\<close> and slicing count code
  points. Strings are therefore lists of code points, and \<open>ustr\<close> turns an ASCII literal
  into one.
\<close>

type_synonym ustring = "nat list"

definition ustr :: "string \<Rightarrow> ustring" where
  "ustr s = map of_char s"

text \<open>The code points for which \<open>str.isspace\<close> holds; \<open>str.strip()\<close> removes them at both ends.\<close>

definition isspace :: "nat \<Rightarrow> bool" where
  "isspace c \<longleftrightarrow>
     (9 \<le> c \<and> c \<le> 13) \<or> (28 \<le> c \<and> c \<le> 32) \<or> c = 133 \<or> c = 160 \<or> c = 5760 \<or>
     (8192 \<le> c \<and> c \<le> 8202) \<or> c = 8232 \<or> c = 8233 \<or> c = 8239 \<or> c = 8287 \<or> c = 12288"

definition py_strip :: "ustring \<Rightarrow> ustring" where
  "py_strip s = rev (dropWhile isspace (rev (dropWhile isspace s)))"

text \<open>
  The values the session holds are what the program builds from literals and what
  \<open>json.load\<close> returns: \<open>None\<close>, booleans, numbers, strings, lists and dicts with string
  keys. A dict keeps its insertion order, so it is an association list. Numbers are
  rationals: the float literal \<open>0.7\<close> is taken as \<open>7/10\<close>, and \<open>NaN\<close> and the infinities
  are left out.
\<close>

datatype json =
    JNull
  | JBool bool
  | JNum rat
  | JStr ustring
  | JArr "json list"
  | JObj "(ustring \<times> json) list"

text \<open>
  Exceptions that leave a function. \<open>TypeError\<close> stands for every failure of an operation
  on a value of the wrong type (Python's \<open>TypeError\<close> and \<open>AttributeError\<close>).
\<close>

datatype exn = KeyError json | TypeError | ValueError | IndexError

text \<open>
  How a step of the Streamlit script ends: it goes on to the next statement, it calls
  \<open>st.rerun()\<close>, or an exception propagates. \<open>st.rerun()\<close> abandons the run by a control
  exception that is not an \<open>Exception\<close>, so that \<open>except Exception\<close> lets it pass.
\<close>

datatype flow = Continue | Rerun | Raised exn

text \<open>What \<open>st.success\<close> and \<open>st.error\<close> show.\<close>

datatype notice = Success ustring | Error ustring

text \<open>Truth value of an object, as \<open>if x\<close> and \<open>not x\<close> test it.\<close>

fun truthy :: "json \<Rightarrow> bool" where
  "truthy JNull = False"
| "truthy (JBool b) = b"
| "truthy (JNum n) = (n \<noteq> 0)"
| "truthy (JStr s) = (s \<noteq> [])"
| "truthy (JArr xs) = (xs \<noteq> [])"
| "truthy (JObj kvs) = (kvs \<noteq> [])"

text \<open>\<open>obj[key]\<close> for a string key: only a dict can be subscripted with a string.\<close>

fun py_getitem :: "json \<Rightarrow> ustring \<Rightarrow> exn + json" where
  "py_getitem (JObj kvs) k =
     (case map_of kvs k of Some v \<Rightarrow> Inr v | None \<Rightarrow> Inl (KeyError (JStr k)))"
| "py_getitem _ k = Inl TypeError"

text \<open>The items a \<open>for\<close> loop draws from an object.\<close>

fun py_iter :: "json \<Rightarrow> exn + json list" where
  "py_iter (JArr xs) = Inr xs"
| "py_iter (JStr s) = Inr (map (\<lambda>c. JStr [c]) s)"
| "py_iter (JObj kvs) = Inr (map (\<lambda>kv. JStr (fst kv)) kvs)"
| "py_iter _ = Inl TypeError"

text \<open>\<open>str(e)\<close> of the \<open>KeyError\<close> raised for a missing key that is a plain identifier.\<close>

definition str_KeyError :: "ustring \<Rightarrow> ustring" where
  "str_KeyError k = ustr [CHR 0x27] @ k @ ustr [CHR 0x27]"

section \<open>ChatBot\<close>

text \<open>The tables set up by \<open>ChatBot.__init__\<close>.\<close>

definition models :: "(ustring \<times> ustring) list" where
  "models =
    [(ustr ''Claude Sonnet 4'', ustr ''anthropic/claude-sonnet-4''),
     (ustr ''GPT-4o'', ustr ''openai/gpt-4o''),
     (ustr ''Gemini 2.0 Flash'', ustr ''google/gemini-2.0-flash-thinking-exp'')]"

definition system_prompts :: "(ustring \<times> ustring) list" where
  "system_prompts =
    [(ustr ''Assistant'',
      ustr ''You are a helpful AI assistant. Provide clear, accurate, and helpful responses to user queries.''),
     (ustr ''Developer'',
      ustr ''You are an expert software developer. Help with coding questions, debugging, and best practices.''),
     (ustr ''Teacher'',
      ustr ''You are a patient and knowledgeable teacher. Explain concepts clearly with examples and encourage learning.''),
     (ustr ''Creative'',
      ustr ''You are a creative AI assistant. Help with writing, brainstorming, and creative projects with imagination and flair.''),
     (ustr ''Analyst'',
      ustr ''You are a data analyst and researcher. Provide detailed analysis, insights, and evidence-based responses.'')]"

text \<open>
  The backend is outside the program. A streaming call delivers chunks, each with a list
  of choices whose \<open>delta.content\<close> is a string or \<open>None\<close>; after the chunks the stream
  either ends or an exception \<open>e\<close> is raised, of which only \<open>str(e)\<close> is used. A call that
  fails at once is a stream with no chunk and a fault.
\<close>

type_synonym chunk = "ustring option list"

record backend_stream =
  chunks :: "chunk list"
  fault :: "ustring option"

record request =
  req_messages :: "json list"
  req_model :: json
  req_temperature :: json

text \<open>The cross mark U+274C, and the prefix \<open>stream_response\<close> puts before \<open>str(e)\<close>.\<close>

definition cross_mark :: nat where
  "cross_mark = 10060"

definition error_marker :: ustring where
  "error_marker = cross_mark # ustr '' Error: ''"

text \<open>
  The body of the \<open>try\<close> block of \<open>stream_response\<close>: the strings it yields, and
  \<open>str(e)\<close> of the exception that ended it, if one did. \<open>chunk.choices[0]\<close> raises
  \<open>IndexError\<close> on a chunk without choices.
\<close>

fun stream_body :: "chunk list \<Rightarrow> ustring option \<Rightarrow> ustring list \<times> ustring option" where
  "stream_body [] flt = ([], flt)"
| "stream_body ([] # cs) flt = ([], Some (ustr ''list index out of range''))"
| "stream_body ((None # _) # cs) flt = stream_body cs flt"
| "stream_body ((Some content # _) # cs) flt =
     (case stream_body cs flt of (ys, e) \<Rightarrow> (content # ys, e))"

text \<open>
  The generator \<open>stream_response\<close>: the sequence of its yields, and the exception that
  leaves it, if any.
\<close>

definition stream_response :: "backend_stream \<Rightarrow> ustring list \<times> ustring option" where
  "stream_response response =
     (case stream_body (chunks response) (fault response) of
        (ys, None) \<Rightarrow> (ys, None)
      | (ys, Some e) \<Rightarrow> (ys @ [error_marker @ e], None))"

section \<open>Session state\<close>

type_synonym conv_id = ustring

text \<open>
  \<open>st.session_state\<close> before \<open>initialize_session_state\<close> has run (either entry may be
  missing) and after it. The conversations are a dict from ids to conversations, in
  insertion order; as in any dict, no key occurs twice, which the theorems on deletion
  assume (\<open>distinct\<close>). A conversation is whatever value was stored, a dict in the
  normal case.
\<close>

record raw_session =
  raw_conversations :: "(conv_id \<times> json) list option"
  raw_active_conversation :: "conv_id option"

record session_state =
  conversations :: "(conv_id \<times> json) list"
  active_conversation :: conv_id

text \<open>
  The dict literal for a fresh conversation, the same at its three places in the source;
  \<open>now\<close> is \<open>datetime.now().isoformat()\<close>.
\<close>

definition new_conversation :: "ustring \<Rightarrow> json" where
  "new_conversation now = JObj
    [(ustr ''title'', JStr (ustr ''New Chat'')),
     (ustr ''messages'', JArr []),
     (ustr ''created_at'', JStr now),
     (ustr ''model'', JStr (ustr ''anthropic/claude-sonnet-4'')),
     (ustr ''personality'', JStr (ustr ''Assistant'')),
     (ustr ''temperature'', JNum (7 / 10))]"

text \<open>In all that follows \<open>conversation_id\<close> is the value of \<open>str(uuid.uuid4())\<close>.\<close>

definition initialize_session_state :: "conv_id \<Rightarrow> ustring \<Rightarrow> raw_session \<Rightarrow> session_state" where
  "initialize_session_state conversation_id now raw =
     (let convs = (case raw_conversations raw of None \<Rightarrow> [] | Some c \<Rightarrow> c) in
      case raw_active_conversation raw of
        None \<Rightarrow> \<lparr>conversations = AList.update conversation_id (new_conversation now) convs,
                  active_conversation = conversation_id\<rparr>
      | Some a \<Rightarrow> \<lparr>conversations = convs, active_conversation = a\<rparr>)"

definition create_new_conversation :: "conv_id \<Rightarrow> ustring \<Rightarrow> session_state \<Rightarrow> session_state \<times> flow" where
  "create_new_conversation conversation_id now st =
     (\<lparr>conversations = AList.update conversation_id (new_conversation now) (conversations st),
       active_conversation = conversation_id\<rparr>, Rerun)"

text \<open>\<open>list(d.keys())[0]\<close>\<close>

definition first_key :: "('k \<times> 'v) list \<Rightarrow> exn + 'k" where
  "first_key d = (case d of [] \<Rightarrow> Inl IndexError | kv # _ \<Rightarrow> Inr (fst kv))"

definition delete_conversation :: "conv_id \<Rightarrow> session_state \<Rightarrow> session_state \<times> flow" where
  "delete_conversation conversation_id st =
     (if length (conversations st) > 1 then
        (if map_of (conversations st) conversation_id = None
         then (st, Raised (KeyError (JStr conversation_id)))
         else
           let st1 = st\<lparr>conversations := AList.delete conversation_id (conversations st)\<rparr> in
           if active_conversation st1 = conversation_id then
             (case first_key (conversations st1) of
                Inl e \<Rightarrow> (st1, Raised e)
              | Inr k \<Rightarrow> (st1\<lparr>active_conversation := k\<rparr>, Rerun))
           else (st1, Rerun))
      else (st, Continue))"

section \<open>Titles\<close>

text \<open>\<open>next((msg for msg in messages if msg["role"] == "user"), None)\<close>\<close>

fun first_user :: "json list \<Rightarrow> exn + json option" where
  "first_user [] = Inr None"
| "first_user (msg # rest) =
     (case py_getitem msg (ustr ''role'') of
        Inl e \<Rightarrow> Inl e
      | Inr r \<Rightarrow> if r = JStr (ustr ''user'') then Inr (Some msg) else first_user rest)"

definition get_conversation_title :: "json \<Rightarrow> exn + ustring" where
  "get_conversation_title messages =
     (if \<not> truthy messages then Inr (ustr ''New Chat'')
      else case py_iter messages of
        Inl e \<Rightarrow> Inl e
      | Inr msgs \<Rightarrow>
         (case first_user msgs of
            Inl e \<Rightarrow> Inl e
          | Inr None \<Rightarrow> Inr (ustr ''New Chat'')
          | Inr (Some first_message) \<Rightarrow>
              if truthy first_message then
                (case py_getitem first_message (ustr ''content'') of
                   Inl e \<Rightarrow> Inl e
                 | Inr (JStr content) \<Rightarrow>
                     Inr (py_strip (take 30 content) @
                          (if length content > 30 then ustr ''...'' else []))
                 | Inr _ \<Rightarrow> Inl TypeError)
              else Inr (ustr ''New Chat'')))"

section \<open>Export and import\<close>

text \<open>
  \<open>json.dumps\<close> and \<open>json.load\<close> belong to the standard library and are parameters:
  \<open>json_dumps v\<close> is the text of \<open>json.dumps(v, indent=2)\<close>, and \<open>json_load f\<close> is the
  value \<open>json.load(f)\<close> returns, or \<open>str(e)\<close> of the exception it raises.
\<close>

definition export_conversation :: "(json \<Rightarrow> 'b) \<Rightarrow> conv_id \<Rightarrow> session_state \<Rightarrow> 'b option" where
  "export_conversation json_dumps conversation_id st =
     (case map_of (conversations st) conversation_id of
        Some conversation \<Rightarrow> Some (json_dumps conversation)
      | None \<Rightarrow> None)"

definition import_conversation ::
  "('f \<Rightarrow> ustring + json) \<Rightarrow> conv_id \<Rightarrow> 'f \<Rightarrow> session_state \<Rightarrow> session_state \<times> notice \<times> flow" where
  "import_conversation json_load conversation_id uploaded_file st =
     (case json_load uploaded_file of
        Inr conversation_data \<Rightarrow>
          (\<lparr>conversations = AList.update conversation_id conversation_data (conversations st),
            active_conversation = conversation_id\<rparr>,
           Success (9989 # ustr '' Conversation imported successfully!''),
           Rerun)
      | Inl e \<Rightarrow> (st, Error (cross_mark # ustr '' Error importing conversation: '' @ e), Continue))"

section \<open>The script \<open>main\<close>\<close>

text \<open>
  The settings block of the sidebar, run when a chatbot is configured. The values the
  widgets return (\<open>selected_model\<close>, \<open>personality\<close>, \<open>temperature\<close>) are parameters; the
  expressions that compute the widgets' initial positions are evaluated first and may
  raise. The slider's own check of its initial value is Streamlit's and is not modelled.
\<close>

definition main_update_settings ::
  "ustring \<Rightarrow> ustring \<Rightarrow> rat \<Rightarrow> session_state \<Rightarrow> session_state \<times> flow" where
  "main_update_settings selected_model personality temperature st =
     (if active_conversation st = [] then (st, Continue)
      else case map_of (conversations st) (active_conversation st) of
        None \<Rightarrow> (st, Raised (KeyError (JStr (active_conversation st))))
      | Some active_conv \<Rightarrow>
         (case py_getitem active_conv (ustr ''model'') of
            Inl e \<Rightarrow> (st, Raised e)
          | Inr _ \<Rightarrow>
             (case py_getitem active_conv (ustr ''personality'') of
                Inl e \<Rightarrow> (st, Raised e)
              | Inr p \<Rightarrow>
                 if p \<notin> set (map (\<lambda>kv. JStr (fst kv)) system_prompts) then (st, Raised ValueError)
                 else
                  (case py_getitem active_conv (ustr ''temperature'') of
                     Inl e \<Rightarrow> (st, Raised e)
                   | Inr _ \<Rightarrow>
                      (case map_of models selected_model of
                         None \<Rightarrow> (st, Raised (KeyError (JStr selected_model)))
                       | Some model_id \<Rightarrow>
                          (case active_conv of
                             JObj kvs \<Rightarrow>
                               (st\<lparr>conversations :=
                                   AList.update (active_conversation st)
                                     (JObj (AList.update (ustr ''temperature'') (JNum temperature)
                                        (AList.update (ustr ''personality'') (JStr personality)
                                          (AList.update (ustr ''model'') (JStr model_id) kvs))))
                                     (conversations st)\<rparr>,
                                Continue)
                           | _ \<Rightarrow> (st, Raised TypeError)))))))"

text \<open>The button "Clear All Chats", pressed.\<close>

definition main_clear_all :: "conv_id \<Rightarrow> ustring \<Rightarrow> session_state \<Rightarrow> session_state \<times> flow" where
  "main_clear_all conversation_id now st =
     (if conversations st \<noteq> [] then
        (\<lparr>conversations = [(conversation_id, new_conversation now)],
          active_conversation = conversation_id\<rparr>, Rerun)
      else (st, Continue))"

definition user_message :: "ustring \<Rightarrow> json" where
  "user_message text = JObj [(ustr ''role'', JStr (ustr ''user'')), (ustr ''content'', JStr text)]"

definition assistant_message :: "ustring \<Rightarrow> json" where
  "assistant_message text =
     JObj [(ustr ''role'', JStr (ustr ''assistant'')), (ustr ''content'', JStr text)]"

definition system_message :: "ustring \<Rightarrow> json" where
  "system_message text = JObj [(ustr ''role'', JStr (ustr ''system'')), (ustr ''content'', JStr text)]"

text \<open>The slice \<open>xs[-20:]\<close>.\<close>

definition last20 :: "'a list \<Rightarrow> 'a list" where
  "last20 xs = drop (length xs - 20) xs"

text \<open>\<open>system_prompts[active_conv["personality"]]\<close>; a list or a dict is not hashable.\<close>

definition lookup_system_prompt :: "json \<Rightarrow> exn + ustring" where
  "lookup_system_prompt active_conv =
     (case py_getitem active_conv (ustr ''personality'') of
        Inl e \<Rightarrow> Inl e
      | Inr (JStr p) \<Rightarrow>
          (case map_of system_prompts p of Some s \<Rightarrow> Inr s | None \<Rightarrow> Inl (KeyError (JStr p)))
      | Inr (JArr xs) \<Rightarrow> Inl TypeError
      | Inr (JObj kvs) \<Rightarrow> Inl TypeError
      | Inr v \<Rightarrow> Inl (KeyError v))"

text \<open>
  "Prepare messages for API": the system message, extended by the last 20 entries of the
  conversation's messages. Slicing a string gives a string, which \<open>extend\<close> takes apart.
\<close>

definition prepare_messages :: "json \<Rightarrow> exn + json list" where
  "prepare_messages active_conv =
     (case lookup_system_prompt active_conv of
        Inl e \<Rightarrow> Inl e
      | Inr prompt \<Rightarrow>
         (case py_getitem active_conv (ustr ''messages'') of
            Inl e \<Rightarrow> Inl e
          | Inr (JArr ms) \<Rightarrow> Inr (system_message prompt # last20 ms)
          | Inr (JStr s) \<Rightarrow> Inr (system_message prompt # map (\<lambda>c. JStr [c]) (last20 s))
          | Inr _ \<Rightarrow> Inl TypeError))"

text \<open>
  "Generate response with streaming": the text of the assistant message that the
  \<open>try\<close> statement appends, for a conversation dict with entries \<open>kvs\<close>. The arguments
  of \<open>stream_response\<close> are evaluated inside the \<open>try\<close>.
\<close>

definition error_msg :: "ustring \<Rightarrow> ustring" where
  "error_msg e = cross_mark # ustr '' Error generating response: '' @ e"

definition generate_response ::
  "(request \<Rightarrow> backend_stream) \<Rightarrow> json list \<Rightarrow> (ustring \<times> json) list \<Rightarrow> ustring" where
  "generate_response backend messages kvs =
     (case map_of kvs (ustr ''model'') of
        None \<Rightarrow> error_msg (str_KeyError (ustr ''model''))
      | Some model \<Rightarrow>
         (case map_of kvs (ustr ''temperature'') of
            None \<Rightarrow> error_msg (str_KeyError (ustr ''temperature''))
          | Some temperature \<Rightarrow>
             (case stream_response
                     (backend \<lparr>req_messages = messages, req_model = model,
                               req_temperature = temperature\<rparr>) of
                (ys, None) \<Rightarrow> concat ys
              | (ys, Some e) \<Rightarrow> error_msg e)))"

text \<open>
  "Process user input", the last block of \<open>main\<close>, on the active conversation: the
  conversation as the block leaves it, and how the block ends.
\<close>

definition main_process_input ::
  "(request \<Rightarrow> backend_stream) \<Rightarrow> bool \<Rightarrow> ustring \<Rightarrow> json \<Rightarrow> json \<times> flow" where
  "main_process_input backend submit_button user_input active_conv =
     (if \<not> (submit_button \<and> py_strip user_input \<noteq> []) then (active_conv, Continue)
      else case active_conv of
        JObj kvs \<Rightarrow>
          (case map_of kvs (ustr ''messages'') of
             None \<Rightarrow> (active_conv, Raised (KeyError (JStr (ustr ''messages''))))
           | Some (JArr ms) \<Rightarrow>
              (let ms1 = ms @ [user_message (py_strip user_input)];
                   kvs1 = AList.update (ustr ''messages'') (JArr ms1) kvs
               in case (if length ms1 = 1
                        then (case get_conversation_title (JArr ms1) of
                                Inl e \<Rightarrow> Inl e
                              | Inr t \<Rightarrow> Inr (AList.update (ustr ''title'') (JStr t) kvs1))
                        else Inr kvs1) of
                    Inl e \<Rightarrow> (JObj kvs1, Raised e)
                  | Inr kvs2 \<Rightarrow>
                     (case prepare_messages (JObj kvs2) of
                        Inl e \<Rightarrow> (JObj kvs2, Raised e)
                      | Inr messages \<Rightarrow>
                         (let response_text = generate_response backend messages kvs2
                          in (JObj (AList.update (ustr ''messages'')
                                      (JArr (ms1 @ [assistant_message response_text])) kvs2),
                              Rerun))))
           | Some _ \<Rightarrow> (active_conv, Raised TypeError))
      | _ \<Rightarrow> (active_conv, Raised TypeError))"

section \<open>JSON text\<close>

text \<open>
  \<open>json.dumps(v, indent=2)\<close> and \<open>json.load\<close> of the standard library, as far as
  export and import use them. First the writer. A string is written in ASCII between
  double quotes: the quote, the backslash and every character outside the range from
  the space to \<open>~\<close> are escaped, a character above U+FFFF as the two escapes of its
  surrogate pair.
\<close>

definition hex_digit :: "nat \<Rightarrow> nat" where
  "hex_digit d = (if d < 10 then 48 + d else 87 + d)"

definition u_escape :: "nat \<Rightarrow> ustring" where
  "u_escape n =
     [92, 117, hex_digit (n div 4096 mod 16), hex_digit (n div 256 mod 16),
      hex_digit (n div 16 mod 16), hex_digit (n mod 16)]"

definition escape_char :: "nat \<Rightarrow> ustring" where
  "escape_char c =
     (if c = 34 then [92, 34] else if c = 92 then [92, 92]
      else if c = 10 then [92, 110] else if c = 13 then [92, 114]
      else if c = 9 then [92, 116] else if c = 8 then [92, 98]
      else if c = 12 then [92, 102]
      else if 32 \<le> c \<and> c \<le> 126 then [c]
      else if c < 65536 then u_escape c
      else u_escape (55296 + (c - 65536) div 1024 mod 1024) @
           u_escape (56320 + (c - 65536) mod 1024))"

definition encode_string :: "ustring \<Rightarrow> ustring" where
  "encode_string s = 34 # concat (map escape_char s) @ [34]"

text \<open>
  A number is written as its plain decimal expansion: the integer part, and after a point
  the digits that long division by the denominator gives, at most as many as the
  denominator is large. Python writes some floats with an exponent and an integral
  float with a final \<open>.0\<close>; \<open>json.load\<close> reads those as the same numbers.
  \<open>frac_rest\<close> is what the division leaves over.
\<close>

fun digits_of :: "nat \<Rightarrow> ustring" where
  "digits_of n = (if n < 10 then [48 + n] else digits_of (n div 10) @ [48 + n mod 10])"

declare digits_of.simps [simp del]

fun frac_digits :: "nat \<Rightarrow> nat \<Rightarrow> nat \<Rightarrow> ustring" where
  "frac_digits 0 r d = []"
| "frac_digits (Suc n) r d =
     (if r = 0 then [] else (48 + 10 * r div d) # frac_digits n (10 * r mod d) d)"

fun frac_rest :: "nat \<Rightarrow> nat \<Rightarrow> nat \<Rightarrow> nat" where
  "frac_rest 0 r d = r"
| "frac_rest (Suc n) r d = (if r = 0 then 0 else frac_rest n (10 * r mod d) d)"

definition encode_number :: "rat \<Rightarrow> ustring" where
  "encode_number q =
     (case quotient_of q of (n, d) \<Rightarrow>
        let a = nat \<bar>n\<bar>; b = nat d in
        (if n < 0 then [45] else []) @ digits_of (a div b) @
        (if a mod b = 0 then [] else 46 # frac_digits b (a mod b) b))"

text \<open>
  With \<open>indent=2\<close> the items of a list and of a dict stand on lines of their own, two
  spaces deeper than the bracket, separated by a comma; a key and its value are
  separated by a colon and a space; an empty list or dict is \<open>[]\<close> or \<open>{}\<close>.
\<close>

definition newline_indent :: "nat \<Rightarrow> ustring" where
  "newline_indent l = 10 # replicate (2 * l) 32"

fun dumps_at :: "nat \<Rightarrow> json \<Rightarrow> ustring"
  and dumps_items :: "nat \<Rightarrow> json list \<Rightarrow> ustring"
  and dumps_members :: "nat \<Rightarrow> (ustring \<times> json) list \<Rightarrow> ustring" where
  "dumps_at l JNull = ustr ''null''"
| "dumps_at l (JBool b) = (if b then ustr ''true'' else ustr ''false'')"
| "dumps_at l (JNum q) = encode_number q"
| "dumps_at l (JStr s) = encode_string s"
| "dumps_at l (JArr []) = ustr ''[]''"
| "dumps_at l (JArr (x # xs)) =
     91 # newline_indent (Suc l) @ dumps_items (Suc l) (x # xs) @ newline_indent l @ [93]"
| "dumps_at l (JObj []) = ustr ''{}''"
| "dumps_at l (JObj (kv # kvs)) =
     123 # newline_indent (Suc l) @ dumps_members (Suc l) (kv # kvs) @ newline_indent l @ [125]"
| "dumps_items l [] = []"
| "dumps_items l [x] = dumps_at l x"
| "dumps_items l (x # y # ys) = dumps_at l x @ 44 # newline_indent l @ dumps_items l (y # ys)"
| "dumps_members l [] = []"
| "dumps_members l [(k, v)] = encode_string k @ [58, 32] @ dumps_at l v"
| "dumps_members l ((k, v) # kv # kvs) =
     encode_string k @ [58, 32] @ dumps_at l v @ 44 # newline_indent l @ dumps_members l (kv # kvs)"

definition py_json_dumps :: "json \<Rightarrow> ustring" where
  "py_json_dumps v = dumps_at 0 v"

text \<open>
  The reader. Blanks, tabs and line ends may stand between the tokens. A string must
  not hold a raw control character; an escaped high surrogate that is followed by an
  escaped low surrogate is read as the one character of the pair. \<open>None\<close> stands for
  the \<open>JSONDecodeError\<close> that the reader raises.
\<close>

definition json_ws :: "nat \<Rightarrow> bool" where
  "json_ws c \<longleftrightarrow> c = 32 \<or> c = 9 \<or> c = 10 \<or> c = 13"

definition skip_ws :: "ustring \<Rightarrow> ustring" where
  "skip_ws s = dropWhile json_ws s"

definition hex_val :: "nat \<Rightarrow> nat option" where
  "hex_val c =
     (if 48 \<le> c \<and> c \<le> 57 then Some (c - 48)
      else if 97 \<le> c \<and> c \<le> 102 then Some (c - 87)
      else if 65 \<le> c \<and> c \<le> 70 then Some (c - 55)
      else None)"

definition decode_u :: "nat \<Rightarrow> nat \<Rightarrow> nat \<Rightarrow> nat \<Rightarrow> nat option" where
  "decode_u a b c d =
     (case hex_val a of None \<Rightarrow> None | Some w \<Rightarrow>
      case hex_val b of None \<Rightarrow> None | Some x \<Rightarrow>
      case hex_val c of None \<Rightarrow> None | Some y \<Rightarrow>
      case hex_val d of None \<Rightarrow> None | Some z \<Rightarrow> Some (((w * 16 + x) * 16 + y) * 16 + z))"

definition unescape :: "nat \<Rightarrow> nat option" where
  "unescape e =
     (if e = 34 then Some 34 else if e = 92 then Some 92 else if e = 47 then Some 47
      else if e = 98 then Some 8 else if e = 102 then Some 12 else if e = 110 then Some 10
      else if e = 114 then Some 13 else if e = 116 then Some 9 else None)"

definition cons_char :: "nat \<Rightarrow> (ustring \<times> ustring) option \<Rightarrow> (ustring \<times> ustring) option" where
  "cons_char ch res = (case res of None \<Rightarrow> None | Some (s, r) \<Rightarrow> Some (ch # s, r))"

fun scan_string :: "ustring \<Rightarrow> (ustring \<times> ustring) option" where
  "scan_string [] = None"
| "scan_string (c # cs) =
     (if c = 34 then Some ([], cs)
      else if c = 92 then
        (case cs of
           [] \<Rightarrow> None
         | e # es \<Rightarrow>
            if e = 117 then
              (case es of
                 h1 # h2 # h3 # h4 # r \<Rightarrow>
                   (case decode_u h1 h2 h3 h4 of
                      None \<Rightarrow> None
                    | Some uni \<Rightarrow>
                       if 55296 \<le> uni \<and> uni \<le> 56319 then
                         (case r of
                            b # u # l1 # l2 # l3 # l4 # r' \<Rightarrow>
                              if b = 92 \<and> u = 117 then
                                (case decode_u l1 l2 l3 l4 of
                                   None \<Rightarrow> None
                                 | Some uni2 \<Rightarrow>
                                    if 56320 \<le> uni2 \<and> uni2 \<le> 57343
                                    then cons_char (65536 + ((uni - 55296) * 1024 + (uni2 - 56320)))
                                           (scan_string r')
                                    else cons_char uni (scan_string r))
                              else cons_char uni (scan_string r)
                          | _ \<Rightarrow> cons_char uni (scan_string r))
                       else cons_char uni (scan_string r))
               | _ \<Rightarrow> None)
            else (case unescape e of None \<Rightarrow> None | Some ch \<Rightarrow> cons_char ch (scan_string es)))
      else if c < 32 then None
      else cons_char c (scan_string cs))"

text \<open>
  A number is an optional minus sign, an integer part without a leading zero, an optional
  fraction and an optional exponent; its value is taken exactly. The constants \<open>NaN\<close>,
  \<open>Infinity\<close> and \<open>-Infinity\<close>, which \<open>json.load\<close> also reads, have no value among the
  rationals and are not read here.
\<close>

declare scan_string.simps [simp del]

definition is_digit :: "nat \<Rightarrow> bool" where
  "is_digit c \<longleftrightarrow> 48 \<le> c \<and> c \<le> 57"

definition nat_of_digits :: "ustring \<Rightarrow> nat" where
  "nat_of_digits ds = foldl (\<lambda>a c. 10 * a + (c - 48)) 0 ds"

definition scan_sign :: "ustring \<Rightarrow> bool \<times> ustring" where
  "scan_sign s = (case s of [] \<Rightarrow> (False, s) | c # r \<Rightarrow> if c = 45 then (True, r) else (False, s))"

definition scan_int :: "ustring \<Rightarrow> (ustring \<times> ustring) option" where
  "scan_int s =
     (case s of
        [] \<Rightarrow> None
      | c # r \<Rightarrow>
          if c = 48 then Some ([48], r)
          else if is_digit c then Some (takeWhile is_digit s, dropWhile is_digit s)
          else None)"

definition scan_frac :: "ustring \<Rightarrow> ustring \<times> ustring" where
  "scan_frac s =
     (case s of
        [] \<Rightarrow> ([], s)
      | c # r \<Rightarrow>
          if c = 46 \<and> takeWhile is_digit r \<noteq> []
          then (takeWhile is_digit r, dropWhile is_digit r) else ([], s))"

definition scan_exp :: "ustring \<Rightarrow> int option \<times> ustring" where
  "scan_exp s =
     (case s of
        [] \<Rightarrow> (None, s)
      | c # r \<Rightarrow>
          if c = 101 \<or> c = 69 then
            (case (case r of
                     [] \<Rightarrow> (False, r)
                   | g # r' \<Rightarrow> if g = 43 then (False, r') else if g = 45 then (True, r')
                              else (False, r)) of
               (neg, t) \<Rightarrow>
                 if takeWhile is_digit t \<noteq> []
                 then (Some ((if neg then - 1 else 1) * int (nat_of_digits (takeWhile is_digit t))),
                       dropWhile is_digit t)
                 else (None, s))
          else (None, s))"

definition parse_number :: "ustring \<Rightarrow> (rat \<times> ustring) option" where
  "parse_number s =
     (case scan_sign s of (neg, s1) \<Rightarrow>
      case scan_int s1 of
        None \<Rightarrow> None
      | Some (ip, s2) \<Rightarrow>
         (case scan_frac s2 of (fp, s3) \<Rightarrow>
          case scan_exp s3 of (ex, s4) \<Rightarrow>
            let m = of_nat (nat_of_digits ip) + of_nat (nat_of_digits fp) / 10 ^ length fp;
                v = (case ex of
                       None \<Rightarrow> m
                     | Some e \<Rightarrow> if 0 \<le> e then m * 10 ^ nat e else m / 10 ^ nat (- e))
            in Some (if neg then - v else v, s4)))"

text \<open>
  \<open>num_stop\<close> holds of a text in front of which a number ends.
\<close>

definition num_stop :: "ustring \<Rightarrow> bool" where
  "num_stop r \<longleftrightarrow>
     (case r of [] \<Rightarrow> True | c # _ \<Rightarrow> \<not> is_digit c \<and> c \<noteq> 46 \<and> c \<noteq> 101 \<and> c \<noteq> 69)"

text \<open>
  The pairs of an object are put into a dict one after the other, so that of two equal
  keys the later value stays. The first argument of the three reading functions bounds
  the number of nested calls; \<open>py_json_loads\<close> allows more of them than the text has
  characters. The whole text must be one value between optional white space.
  \<open>py_json_load\<close> is \<open>json.load\<close> as \<open>import_conversation\<close> sees it: on the text of
  the uploaded file it gives the value, or \<open>str(e)\<close> of the error, which \<open>str_e\<close>
  supplies. The exported text is ASCII, so the bytes of a file that holds it are its
  characters.
\<close>

definition dict_of :: "(ustring \<times> json) list \<Rightarrow> (ustring \<times> json) list" where
  "dict_of pairs = foldl (\<lambda>d kv. AList.update (fst kv) (snd kv) d) [] pairs"

fun parse_value :: "nat \<Rightarrow> ustring \<Rightarrow> (json \<times> ustring) option"
  and parse_elements :: "nat \<Rightarrow> ustring \<Rightarrow> (json list \<times> ustring) option"
  and parse_members :: "nat \<Rightarrow> ustring \<Rightarrow> ((ustring \<times> json) list \<times> ustring) option" where
  "parse_value 0 s = None"
| "parse_value (Suc n) s =
     (case s of
        [] \<Rightarrow> None
      | c # cs \<Rightarrow>
          if c = 34 then
            (case scan_string cs of None \<Rightarrow> None | Some (str, r) \<Rightarrow> Some (JStr str, r))
          else if c = 123 then
            (case skip_ws cs of
               [] \<Rightarrow> None
             | d # r \<Rightarrow>
                 if d = 125 then Some (JObj [], r)
                 else (case parse_members n (d # r) of
                         None \<Rightarrow> None
                       | Some (pairs, r') \<Rightarrow> Some (JObj (dict_of pairs), r')))
          else if c = 91 then
            (case skip_ws cs of
               [] \<Rightarrow> None
             | d # r \<Rightarrow>
                 if d = 93 then Some (JArr [], r)
                 else (case parse_elements n (d # r) of
                         None \<Rightarrow> None
                       | Some (xs, r') \<Rightarrow> Some (JArr xs, r')))
          else if take 4 s = ustr ''null'' then Some (JNull, drop 4 s)
          else if take 4 s = ustr ''true'' then Some (JBool True, drop 4 s)
          else if take 5 s = ustr ''false'' then Some (JBool False, drop 5 s)
          else (case parse_number s of None \<Rightarrow> None | Some (q, r) \<Rightarrow> Some (JNum q, r)))"
| "parse_elements 0 s = None"
| "parse_elements (Suc n) s =
     (case parse_value n s of
        None \<Rightarrow> None
      | Some (v, r) \<Rightarrow>
         (case skip_ws r of
            [] \<Rightarrow> None
          | d # r' \<Rightarrow>
              if d = 44 then
                (case parse_elements n (skip_ws r') of
                   None \<Rightarrow> None
                 | Some (vs, r'') \<Rightarrow> Some (v # vs, r''))
              else if d = 93 then Some ([v], r')
              else None))"
| "parse_members 0 s = None"
| "parse_members (Suc n) s =
     (case s of
        [] \<Rightarrow> None
      | c # cs \<Rightarrow>
          if c \<noteq> 34 then None
          else
            (case scan_string cs of
               None \<Rightarrow> None
             | Some (k, r) \<Rightarrow>
                (case skip_ws r of
                   [] \<Rightarrow> None
                 | d # r1 \<Rightarrow>
                     if d \<noteq> 58 then None
                     else
                       (case parse_value n (skip_ws r1) of
                          None \<Rightarrow> None
                        | Some (v, r2) \<Rightarrow>
                           (case skip_ws r2 of
                              [] \<Rightarrow> None
                            | g # r3 \<Rightarrow>
                                if g = 44 then
                                  (case parse_members n (skip_ws r3) of
                                     None \<Rightarrow> None
                                   | Some (kvs, r4) \<Rightarrow> Some ((k, v) # kvs, r4))
                                else if g = 125 then Some ([(k, v)], r3)
                                else None)))))"

definition py_json_loads :: "ustring \<Rightarrow> json option" where
  "py_json_loads s =
     (case parse_value (Suc (length s)) (skip_ws s) of
        None \<Rightarrow> None
      | Some (v, r) \<Rightarrow> if skip_ws r = [] then Some v else None)"

definition py_json_load :: "(ustring \<Rightarrow> ustring) \<Rightarrow> ustring \<Rightarrow> ustring + json" where
  "py_json_load str_e uploaded_file =
     (case py_json_loads uploaded_file of Some v \<Rightarrow> Inr v | None \<Rightarrow> Inl (str_e uploaded_file))"

text \<open>
  The values that are the same after writing and reading: in no string does a low
  surrogate code point follow a high one directly, every code point is below 0x110000,
  every number has a finite decimal expansion, and no dict has a key twice.
\<close>

definition high_surrogate :: "nat \<Rightarrow> bool" where
  "high_surrogate c \<longleftrightarrow> 55296 \<le> c \<and> c \<le> 56319"

definition low_surrogate :: "nat \<Rightarrow> bool" where
  "low_surrogate c \<longleftrightarrow> 56320 \<le> c \<and> c \<le> 57343"

fun no_pair :: "ustring \<Rightarrow> bool" where
  "no_pair (c # d # s) = (\<not> (high_surrogate c \<and> low_surrogate d) \<and> no_pair (d # s))"
| "no_pair [c] = True"
| "no_pair [] = True"

definition wf_string :: "ustring \<Rightarrow> bool" where
  "wf_string s \<longleftrightarrow> list_all (\<lambda>c. c < 1114112) s \<and> no_pair s"

definition finite_decimal :: "rat \<Rightarrow> bool" where
  "finite_decimal q =
     (case quotient_of q of (n, d) \<Rightarrow> frac_rest (nat d) (nat \<bar>n\<bar> mod nat d) (nat d) = 0)"

fun wf_json :: "json \<Rightarrow> bool"
  and wf_items :: "json list \<Rightarrow> bool"
  and wf_members :: "(ustring \<times> json) list \<Rightarrow> bool" where
  "wf_json JNull = True"
| "wf_json (JBool b) = True"
| "wf_json (JNum q) = finite_decimal q"
| "wf_json (JStr s) = wf_string s"
| "wf_json (JArr xs) = wf_items xs"
| "wf_json (JObj kvs) = (distinct (map fst kvs) \<and> wf_members kvs)"
| "wf_items [] = True"
| "wf_items (x # xs) = (wf_json x \<and> wf_items xs)"
| "wf_members [] = True"
| "wf_members ((k, v) # kvs) = (wf_string k \<and> wf_json v \<and> wf_members kvs)"

section \<open>The invariant of the data model\<close>

text \<open>
  What the data model asks of a conversation: its model is one of the backend identifiers
  of \<open>models\<close>, its personality is a key of \<open>system_prompts\<close>, and its temperature is a
  number between 0 and 1. A store is in order when all its conversations are.
\<close>

definition conv_ok :: "json \<Rightarrow> bool" where
  "conv_ok c \<longleftrightarrow>
     (case py_getitem c (ustr ''model'') of Inr (JStr m) \<Rightarrow> m \<in> snd ` set models | _ \<Rightarrow> False) \<and>
     (case py_getitem c (ustr ''personality'') of
        Inr (JStr p) \<Rightarrow> p \<in> fst ` set system_prompts | _ \<Rightarrow> False) \<and>
     (case py_getitem c (ustr ''temperature'') of Inr (JNum t) \<Rightarrow> 0 \<le> t \<and> t \<le> 1 | _ \<Rightarrow> False)"

definition store_ok :: "session_state \<Rightarrow> bool" where
  "store_ok st \<longleftrightarrow> (\<forall>kv \<in> set (conversations st). conv_ok (snd kv))"

section \<open>Facts about the Python operations\<close>

lemma truthy_getitem: "py_getitem m k = Inr v \<Longrightarrow> truthy m"
  by (cases m) (auto split: option.splits)

lemma dropWhile_hd_id: "xs \<noteq> [] \<Longrightarrow> \<not> P (hd xs) \<Longrightarrow> dropWhile P xs = xs"
  by (cases xs) auto

lemma py_strip_id:
  assumes "s = [] \<or> (\<not> isspace (hd s) \<and> \<not> isspace (last s))"
  shows "py_strip s = s"
proof (cases "s = []")
  case True
  then show ?thesis by (simp add: py_strip_def)
next
  case False
  with assms have h: "\<not> isspace (hd s)" and l: "\<not> isspace (last s)" by auto
  have 1: "dropWhile isspace s = s" using False h by (rule dropWhile_hd_id)
  have "rev s \<noteq> []" using False by simp
  moreover have "\<not> isspace (hd (rev s))" using False l by (simp add: hd_rev)
  ultimately have 2: "dropWhile isspace (rev s) = rev s" by (rule dropWhile_hd_id)
  show ?thesis by (simp add: py_strip_def 1 2)
qed

lemma update_fresh: "map_of al k = None \<Longrightarrow> AList.update k v al = al @ [(k, v)]"
  by (induction al) (auto split: if_splits)

lemma set_update_subset: "set (AList.update k v al) \<subseteq> insert (k, v) (set al)"
  by (induction al) auto

lemma set_delete_subset: "set (AList.delete k al) \<subseteq> set al"
  by (auto simp: AList.delete_eq)

lemma update_mem: "(k, v) \<in> set (AList.update k v al)"
  by (induction al) auto

lemma all_update:
  "\<forall>kv\<in>set al. P (snd kv) \<Longrightarrow> P v \<Longrightarrow> \<forall>kv\<in>set (AList.update k v al). P (snd kv)"
  using set_update_subset [of k v al] by auto

lemma all_delete:
  "\<forall>kv\<in>set al. P (snd kv) \<Longrightarrow> \<forall>kv\<in>set (AList.delete k al). P (snd kv)"
  using set_delete_subset [of k al] by auto

lemma key_neq:
  "ustr ''messages'' \<noteq> ustr ''model''" "ustr ''messages'' \<noteq> ustr ''personality''"
  "ustr ''messages'' \<noteq> ustr ''temperature''" "ustr ''messages'' \<noteq> ustr ''title''"
  "ustr ''title'' \<noteq> ustr ''model''" "ustr ''title'' \<noteq> ustr ''personality''"
  "ustr ''title'' \<noteq> ustr ''temperature''" "ustr ''title'' \<noteq> ustr ''messages''"
  "ustr ''model'' \<noteq> ustr ''personality''" "ustr ''model'' \<noteq> ustr ''temperature''"
  "ustr ''personality'' \<noteq> ustr ''model''" "ustr ''personality'' \<noteq> ustr ''temperature''"
  "ustr ''temperature'' \<noteq> ustr ''model''" "ustr ''temperature'' \<noteq> ustr ''personality''"
  "ustr ''model'' \<noteq> ustr ''messages''" "ustr ''personality'' \<noteq> ustr ''messages''"
  "ustr ''temperature'' \<noteq> ustr ''messages''"
  "ustr ''model'' \<noteq> ustr ''title''" "ustr ''personality'' \<noteq> ustr ''title''"
  "ustr ''temperature'' \<noteq> ustr ''title''"
  by (simp_all add: ustr_def)

lemma length_delete_present:
  "distinct (map fst al) \<Longrightarrow> map_of al k = Some v \<Longrightarrow> Suc (length (AList.delete k al)) = length al"
proof (induction al)
  case Nil
  then show ?case by simp
next
  case (Cons p al)
  show ?case
  proof (cases "fst p = k")
    case True
    with Cons.prems have "k \<notin> fst ` set al" by auto
    then have "AList.delete k al = al" by simp
    with True show ?thesis by (cases p) simp
  next
    case False
    with Cons show ?thesis by (cases p) (auto simp: AList.delete_eq)
  qed
qed

section \<open>Conversation titles\<close>

lemma first_user_none:
  "\<forall>m\<in>set msgs. \<exists>r. py_getitem m (ustr ''role'') = Inr r \<and> r \<noteq> JStr (ustr ''user'')
   \<Longrightarrow> first_user msgs = Inr None"
  by (induction msgs) auto

lemma first_user_found:
  "\<forall>m\<in>set pre. \<exists>r. py_getitem m (ustr ''role'') = Inr r \<and> r \<noteq> JStr (ustr ''user'')
   \<Longrightarrow> py_getitem m (ustr ''role'') = Inr (JStr (ustr ''user''))
   \<Longrightarrow> first_user (pre @ m # rest) = Inr (Some m)"
  by (induction pre) auto

text \<open>
  Claim C4, as stated, fails: a content of at most 30 characters is not always returned
  unchanged, since the title is stripped of surrounding whitespace. The content
  \<open>" hi"\<close> gives the title \<open>"hi"\<close>.
\<close>

theorem title_unchanged_counterexample:
  "length (ustr '' hi'') \<le> 30 \<and>
   get_conversation_title (JArr [user_message (ustr '' hi'')]) = Inr (ustr ''hi'') \<and>
   ustr ''hi'' \<noteq> ustr '' hi''"
  by (simp add: get_conversation_title_def user_message_def ustr_def py_strip_def isspace_def)

text \<open>
  Claim C4, amended. For a list of messages in which no message has the role \<open>"user"\<close>
  the title is \<open>"New Chat"\<close>. Otherwise, with \<open>content\<close> the content of the first
  message whose role is \<open>"user"\<close>, the title is the first 30 characters of \<open>content\<close>
  with leading and trailing whitespace removed, followed by \<open>"..."\<close> when \<open>content\<close>
  is longer than 30 characters. In particular a content of at most 30 characters that
  neither starts nor ends with whitespace is returned unchanged. The title is a function
  of the message list alone.
\<close>

theorem title_spec:
  assumes pre: "\<forall>m\<in>set pre. \<exists>r. py_getitem m (ustr ''role'') = Inr r \<and> r \<noteq> JStr (ustr ''user'')"
  shows "get_conversation_title (JArr pre) = Inr (ustr ''New Chat'') \<and>
    (py_getitem m (ustr ''role'') = Inr (JStr (ustr ''user'')) \<longrightarrow>
     py_getitem m (ustr ''content'') = Inr (JStr content) \<longrightarrow>
       get_conversation_title (JArr (pre @ m # rest)) =
         Inr (py_strip (take 30 content) @ (if 30 < length content then ustr ''...'' else [])) \<and>
       (length content \<le> 30 \<longrightarrow>
        (content = [] \<or> \<not> isspace (hd content) \<and> \<not> isspace (last content)) \<longrightarrow>
        get_conversation_title (JArr (pre @ m # rest)) = Inr content))"
proof -
  have a: "get_conversation_title (JArr pre) = Inr (ustr ''New Chat'')"
    using first_user_none [OF pre] by (simp add: get_conversation_title_def)
  have b: "get_conversation_title (JArr (pre @ m # rest)) =
         Inr (py_strip (take 30 content) @ (if 30 < length content then ustr ''...'' else []))"
    if r: "py_getitem m (ustr ''role'') = Inr (JStr (ustr ''user''))"
    and c: "py_getitem m (ustr ''content'') = Inr (JStr content)"
    using first_user_found [OF pre r, of rest] truthy_getitem [OF r] c
    by (simp add: get_conversation_title_def)
  show ?thesis using a b py_strip_id by auto
qed

theorem title_spec_witness:
  "get_conversation_title (JArr [assistant_message (ustr ''Welcome'')]) = Inr (ustr ''New Chat'') \<and>
   get_conversation_title
     (JArr [assistant_message (ustr ''Welcome''),
            user_message (ustr ''What is the capital of France, please?''),
            user_message (ustr ''Hi'')]) =
     Inr (ustr ''What is the capital of France,...'') \<and>
   get_conversation_title
     (JArr [assistant_message (ustr ''Welcome''), user_message (ustr ''Hi'')]) = Inr (ustr ''Hi'')"
  using title_spec [of "[assistant_message (ustr ''Welcome'')]"
          "user_message (ustr ''What is the capital of France, please?'')"
          "ustr ''What is the capital of France, please?''" "[user_message (ustr ''Hi'')]"]
        title_spec [of "[assistant_message (ustr ''Welcome'')]"
          "user_message (ustr ''Hi'')" "ustr ''Hi''" "[]"]
  by (simp add: assistant_message_def user_message_def ustr_def py_strip_def isspace_def)

section \<open>Deleting a conversation\<close>

lemma delete_sole: "length (conversations st) \<le> 1 \<Longrightarrow> delete_conversation cid st = (st, Continue)"
  by (simp add: delete_conversation_def)

lemma delete_absent:
  "1 < length (conversations st) \<Longrightarrow> map_of (conversations st) cid = None
   \<Longrightarrow> delete_conversation cid st = (st, Raised (KeyError (JStr cid)))"
  by (simp add: delete_conversation_def)

lemma delete_present:
  assumes d: "distinct (map fst (conversations st))"
    and n: "1 < length (conversations st)"
    and v: "map_of (conversations st) cid = Some v"
  shows "AList.delete cid (conversations st) \<noteq> []"
    and "delete_conversation cid st =
           (\<lparr>conversations = AList.delete cid (conversations st),
             active_conversation =
               (if active_conversation st = cid
                then fst (hd (AList.delete cid (conversations st)))
                else active_conversation st)\<rparr>, Rerun)"
proof -
  have "Suc (length (AList.delete cid (conversations st))) = length (conversations st)"
    using d v by (rule length_delete_present)
  with n show ne: "AList.delete cid (conversations st) \<noteq> []" by auto
  then obtain kv rest where kv: "AList.delete cid (conversations st) = kv # rest"
    by (cases "AList.delete cid (conversations st)") auto
  show "delete_conversation cid st =
           (\<lparr>conversations = AList.delete cid (conversations st),
             active_conversation =
               (if active_conversation st = cid
                then fst (hd (AList.delete cid (conversations st)))
                else active_conversation st)\<rparr>, Rerun)"
    using n v kv by (simp add: delete_conversation_def first_key_def Let_def)
qed

text \<open>
  Claim C3, as stated, fails in one point: deleting the only conversation reports
  nothing. \<open>delete_conversation\<close> leaves the state as it is and the script goes on
  (\<open>Continue\<close>): no exception is raised and nothing is shown.
\<close>

theorem delete_last_counterexample:
  "delete_conversation (ustr ''a'')
     \<lparr>conversations = [(ustr ''a'', new_conversation (ustr ''2024-01-01T00:00:00''))],
      active_conversation = ustr ''a''\<rparr> =
   (\<lparr>conversations = [(ustr ''a'', new_conversation (ustr ''2024-01-01T00:00:00''))],
     active_conversation = ustr ''a''\<rparr>, Continue)"
  by (simp add: delete_conversation_def)

text \<open>
  Claim C3, amended. In a store with exactly one conversation, \<open>delete_conversation\<close>
  is a silent no-op: the state is unchanged, the store still has its one entry, and no
  error is signalled. In a store with more than one conversation and \<open>cid\<close> among its
  keys, the entry of \<open>cid\<close> is removed, the other entries keep their order, and the
  active id, if it was \<open>cid\<close>, becomes the first remaining key; the script is rerun.
\<close>

theorem delete_conversation_spec:
  assumes d: "distinct (map fst (conversations st))"
  shows "(length (conversations st) = 1 \<longrightarrow>
            delete_conversation cid st = (st, Continue) \<and>
            length (conversations (fst (delete_conversation cid st))) = 1) \<and>
         (1 < length (conversations st) \<longrightarrow> map_of (conversations st) cid \<noteq> None \<longrightarrow>
            AList.delete cid (conversations st) \<noteq> [] \<and>
            map_of (AList.delete cid (conversations st)) cid = None \<and>
            Suc (length (AList.delete cid (conversations st))) = length (conversations st) \<and>
            delete_conversation cid st =
              (\<lparr>conversations = AList.delete cid (conversations st),
                active_conversation =
                  (if active_conversation st = cid
                   then fst (hd (AList.delete cid (conversations st)))
                   else active_conversation st)\<rparr>, Rerun))"
proof (intro conjI impI)
  assume one: "length (conversations st) = 1"
  then show "delete_conversation cid st = (st, Continue)"
    by (simp add: delete_sole)
  with one show "length (conversations (fst (delete_conversation cid st))) = 1"
    by simp
next
  assume n: "1 < length (conversations st)" and p: "map_of (conversations st) cid \<noteq> None"
  from p obtain v where v: "map_of (conversations st) cid = Some v" by auto
  show "AList.delete cid (conversations st) \<noteq> []"
    using d n v by (rule delete_present(1))
  show "map_of (AList.delete cid (conversations st)) cid = None"
    by (simp add: AList.delete_conv')
  show "Suc (length (AList.delete cid (conversations st))) = length (conversations st)"
    using d v by (rule length_delete_present)
  show "delete_conversation cid st =
              (\<lparr>conversations = AList.delete cid (conversations st),
                active_conversation =
                  (if active_conversation st = cid
                   then fst (hd (AList.delete cid (conversations st)))
                   else active_conversation st)\<rparr>, Rerun)"
    using d n v by (rule delete_present(2))
qed

theorem delete_conversation_spec_witness:
  "delete_conversation (ustr ''a'')
     \<lparr>conversations = [(ustr ''a'', JObj [])], active_conversation = ustr ''a''\<rparr> =
     (\<lparr>conversations = [(ustr ''a'', JObj [])], active_conversation = ustr ''a''\<rparr>, Continue) \<and>
   delete_conversation (ustr ''a'')
     \<lparr>conversations = [(ustr ''a'', JObj []), (ustr ''b'', JNull), (ustr ''c'', JNull)],
      active_conversation = ustr ''a''\<rparr> =
     (\<lparr>conversations = [(ustr ''b'', JNull), (ustr ''c'', JNull)],
       active_conversation = ustr ''b''\<rparr>, Rerun) \<and>
   delete_conversation (ustr ''b'')
     \<lparr>conversations = [(ustr ''a'', JObj []), (ustr ''b'', JNull), (ustr ''c'', JNull)],
      active_conversation = ustr ''a''\<rparr> =
     (\<lparr>conversations = [(ustr ''a'', JObj []), (ustr ''c'', JNull)],
       active_conversation = ustr ''a''\<rparr>, Rerun)"
  using
    delete_conversation_spec [of
      "\<lparr>conversations = [(ustr ''a'', JObj [])], active_conversation = ustr ''a''\<rparr>" "ustr ''a''"]
    delete_conversation_spec [of
      "\<lparr>conversations = [(ustr ''a'', JObj []), (ustr ''b'', JNull), (ustr ''c'', JNull)],
        active_conversation = ustr ''a''\<rparr>" "ustr ''a''"]
    delete_conversation_spec [of
      "\<lparr>conversations = [(ustr ''a'', JObj []), (ustr ''b'', JNull), (ustr ''c'', JNull)],
        active_conversation = ustr ''a''\<rparr>" "ustr ''b''"]
  by (simp add: ustr_def)

text \<open>
  Claim C10. In a store with more than one conversation, \<open>delete_conversation\<close> with
  an id that is not a key raises \<open>KeyError\<close>, which nothing catches, and the state is
  as before; with an id that is a key it raises nothing.
\<close>

theorem delete_absent_raises:
  assumes n: "1 < length (conversations st)" and d: "distinct (map fst (conversations st))"
  shows "(map_of (conversations st) cid = None \<longrightarrow>
            delete_conversation cid st = (st, Raised (KeyError (JStr cid)))) \<and>
         (map_of (conversations st) cid \<noteq> None \<longrightarrow> snd (delete_conversation cid st) = Rerun)"
proof (intro conjI impI)
  assume "map_of (conversations st) cid = None"
  with n show "delete_conversation cid st = (st, Raised (KeyError (JStr cid)))"
    by (rule delete_absent)
next
  assume "map_of (conversations st) cid \<noteq> None"
  then obtain v where "map_of (conversations st) cid = Some v" by auto
  with d n show "snd (delete_conversation cid st) = Rerun"
    by (simp add: delete_present(2))
qed

theorem delete_absent_raises_witness:
  "delete_conversation (ustr ''zz'')
     \<lparr>conversations = [(ustr ''a'', JObj []), (ustr ''b'', JNull)],
      active_conversation = ustr ''a''\<rparr> =
     (\<lparr>conversations = [(ustr ''a'', JObj []), (ustr ''b'', JNull)],
       active_conversation = ustr ''a''\<rparr>, Raised (KeyError (JStr (ustr ''zz'')))) \<and>
   snd (delete_conversation (ustr ''b'')
     \<lparr>conversations = [(ustr ''a'', JObj []), (ustr ''b'', JNull)],
      active_conversation = ustr ''a''\<rparr>) = Rerun"
  using
    delete_absent_raises [of
      "\<lparr>conversations = [(ustr ''a'', JObj []), (ustr ''b'', JNull)],
        active_conversation = ustr ''a''\<rparr>" "ustr ''zz''"]
    delete_absent_raises [of
      "\<lparr>conversations = [(ustr ''a'', JObj []), (ustr ''b'', JNull)],
        active_conversation = ustr ''a''\<rparr>" "ustr ''b''"]
  by (simp add: ustr_def)

section \<open>The stream of a reply\<close>

lemma stream_body_choices:
  "[] \<notin> set cs \<Longrightarrow> stream_body cs flt = (List.map_filter hd cs, flt)"
  by (induction cs flt rule: stream_body.induct) (auto simp: List.map_filter_simps)

lemma stream_body_no_choice:
  "[] \<notin> set pre \<Longrightarrow>
   stream_body (pre @ [] # rest) flt = (List.map_filter hd pre, Some (ustr ''list index out of range''))"
  by (induction pre flt rule: stream_body.induct) (auto simp: List.map_filter_simps)

lemma stream_response_no_raise: "snd (stream_response r) = None"
  by (simp add: stream_response_def split: prod.splits option.splits)

text \<open>
  Claim C6. No exception leaves \<open>stream_response\<close>. When the backend raises \<open>e\<close> after
  its chunks, the generator yields the contents of those chunks, in order, then the one
  string \<open>error_marker @ str(e)\<close>, and ends. The same holds when the failure is the
  generator's own \<open>IndexError\<close> on a chunk without choices: the contents before that
  chunk, then one error-marked string, then the end.
\<close>

theorem stream_response_failure:
  "snd (stream_response r) = None \<and>
   ([] \<notin> set (chunks r) \<longrightarrow> fault r = Some e \<longrightarrow>
      stream_response r = (List.map_filter hd (chunks r) @ [error_marker @ e], None)) \<and>
   ([] \<notin> set pre \<longrightarrow> chunks r = pre @ [] # rest \<longrightarrow>
      stream_response r =
        (List.map_filter hd pre @ [error_marker @ ustr ''list index out of range''], None))"
  by (simp add: stream_response_no_raise)
     (simp add: stream_response_def stream_body_choices stream_body_no_choice)

theorem stream_response_failure_witness:
  "stream_response \<lparr>chunks = [[Some (ustr ''Hel'')], [None], [Some (ustr ''lo''), Some (ustr ''x'')]],
                    fault = Some (ustr ''timeout'')\<rparr> =
     ([ustr ''Hel'', ustr ''lo'', error_marker @ ustr ''timeout''], None) \<and>
   stream_response \<lparr>chunks = [[Some (ustr ''Hel'')], [], [Some (ustr ''lo'')]], fault = None\<rparr> =
     ([ustr ''Hel'', error_marker @ ustr ''list index out of range''], None)"
  using
    stream_response_failure [of
      "\<lparr>chunks = [[Some (ustr ''Hel'')], [None], [Some (ustr ''lo''), Some (ustr ''x'')]],
        fault = Some (ustr ''timeout'')\<rparr>" "ustr ''timeout''" "[]" "[]"]
    stream_response_failure [of
      "\<lparr>chunks = [[Some (ustr ''Hel'')], [], [Some (ustr ''lo'')]], fault = None\<rparr>"
      "[]" "[[Some (ustr ''Hel'')]]" "[[Some (ustr ''lo'')]]"]
  by (simp add: List.map_filter_simps)

section \<open>Reading back what was written\<close>

subsection \<open>Strings\<close>


lemma scan_quote: "scan_string (34 # r) = Some ([], r)"
  by (simp add: scan_string.simps)

lemma scan_plain:
  "c \<noteq> 34 \<Longrightarrow> c \<noteq> 92 \<Longrightarrow> 32 \<le> c \<Longrightarrow> scan_string (c # r) = cons_char c (scan_string r)"
  by (simp add: scan_string.simps)

lemma scan_simple:
  "e \<noteq> 117 \<Longrightarrow> unescape e = Some ch \<Longrightarrow> scan_string (92 # e # r) = cons_char ch (scan_string r)"
  by (simp add: scan_string.simps)

lemma scan_u:
  assumes "decode_u a b c d = Some uni" and "uni < 55296 \<or> 56319 < uni"
  shows "scan_string (92 # 117 # a # b # c # d # r) = cons_char uni (scan_string r)"
proof -
  have "\<not> (55296 \<le> uni \<and> uni \<le> 56319)" using assms(2) by auto
  then have "(if 55296 \<le> uni \<and> uni \<le> 56319 then x else y) = y" for x y :: "(ustring \<times> ustring) option"
    by (rule if_not_P)
  then show ?thesis
    using assms(1) by (simp add: scan_string.simps)
qed

lemma scan_pair:
  assumes "decode_u a b c d = Some uni" and "55296 \<le> uni" and "uni \<le> 56319"
    and "decode_u l1 l2 l3 l4 = Some uni2" and "56320 \<le> uni2" and "uni2 \<le> 57343"
  shows "scan_string (92 # 117 # a # b # c # d # 92 # 117 # l1 # l2 # l3 # l4 # r) =
     cons_char (65536 + ((uni - 55296) * 1024 + (uni2 - 56320))) (scan_string r)"
  using assms by (simp add: scan_string.simps)

lemma hex_val_hex_digit: "d < 16 \<Longrightarrow> hex_val (hex_digit d) = Some d"
  unfolding hex_val_def hex_digit_def by (cases "d < 10") simp_all

lemma hex4_split:
  assumes "n < 65536"
  shows "((n div 4096 mod 16 * 16 + n div 256 mod 16) * 16 + n div 16 mod 16) * 16 + n mod 16 = (n::nat)"
proof -
  define b where "b = n div 16"
  define a where "a = b div 16"
  have a: "n div 256 = a" by (simp add: a_def b_def div_mult2_eq)
  have h: "n div 4096 = a div 16" by (simp add: a_def b_def div_mult2_eq)
  have "a div 16 < 16" using assms unfolding h [symmetric] by simp
  then have 1: "a div 16 mod 16 = a div 16" by simp
  have 2: "a div 16 * 16 + a mod 16 = a" by simp
  have 3: "a * 16 + b mod 16 = b" by (simp add: a_def)
  have 4: "b * 16 + n mod 16 = n" by (simp add: b_def)
  show ?thesis
    unfolding h a b_def [symmetric] 1 2 3 4 ..
qed

lemma decode_u_escape:
  assumes "n < 65536"
  shows "decode_u (hex_digit (n div 4096 mod 16)) (hex_digit (n div 256 mod 16))
           (hex_digit (n div 16 mod 16)) (hex_digit (n mod 16)) = Some n"
proof -
  have "decode_u (hex_digit (n div 4096 mod 16)) (hex_digit (n div 256 mod 16))
           (hex_digit (n div 16 mod 16)) (hex_digit (n mod 16)) =
        Some (((n div 4096 mod 16 * 16 + n div 256 mod 16) * 16 + n div 16 mod 16) * 16 + n mod 16)"
    unfolding decode_u_def by (simp only: hex_val_hex_digit mod_less_divisor zero_less_numeral option.case)
  then show ?thesis by (simp only: hex4_split [OF assms])
qed


lemma esc_simple:
  "escape_char 34 = [92, 34]" "escape_char 92 = [92, 92]" "escape_char 10 = [92, 110]"
  "escape_char 13 = [92, 114]" "escape_char 9 = [92, 116]" "escape_char 8 = [92, 98]"
  "escape_char 12 = [92, 102]"
  by (simp_all add: escape_char_def)

lemma unesc_simple:
  "unescape 34 = Some 34" "unescape 92 = Some 92" "unescape 110 = Some 10"
  "unescape 114 = Some 13" "unescape 116 = Some 9" "unescape 98 = Some 8"
  "unescape 102 = Some 12"
  by (simp_all add: unescape_def)

lemma scan_escape_special:
  assumes "c = 34 \<or> c = 92 \<or> c = 10 \<or> c = 13 \<or> c = 9 \<or> c = 8 \<or> c = 12"
  shows "scan_string (escape_char c @ r) = cons_char c (scan_string r)"
  using assms by (elim disjE) (simp_all add: esc_simple scan_simple unesc_simple)

lemma scan_escape_plain:
  assumes "32 \<le> c" "c \<le> 126" "c \<noteq> 34" "c \<noteq> 92"
  shows "scan_string (escape_char c @ r) = cons_char c (scan_string r)"
proof -
  have "escape_char c = [c]" using assms by (simp add: escape_char_def)
  then show ?thesis using assms by (simp add: scan_plain)
qed

lemma scan_escape_bmp:
  assumes "c < 65536" "c < 32 \<or> 126 < c" "c \<noteq> 10" "c \<noteq> 13" "c \<noteq> 9" "c \<noteq> 8" "c \<noteq> 12"
    and "c < 55296 \<or> 56319 < c"
  shows "scan_string (escape_char c @ r) = cons_char c (scan_string r)"
proof -
  have "escape_char c = u_escape c" using assms(1-7) by (auto simp: escape_char_def)
  then show ?thesis
    using scan_u [OF decode_u_escape [OF assms(1)] assms(8), of r] by (simp add: u_escape_def)
qed

lemma scan_escape_astral:
  assumes "65536 \<le> c" "c < 1114112"
  shows "scan_string (escape_char c @ r) = cons_char c (scan_string r)"
proof -
  define m where "m = c - 65536"
  have m: "m < 1048576" "c = 65536 + m" using assms by (auto simp: m_def)
  have d: "m div 1024 < 1024" using m(1) by simp
  have e: "escape_char c = u_escape (55296 + m div 1024) @ u_escape (56320 + m mod 1024)"
    using assms(1) d by (simp add: escape_char_def m_def [symmetric])
  have hi: "55296 + m div 1024 < 65536" "55296 \<le> 55296 + m div 1024" "55296 + m div 1024 \<le> 56319"
    using d by simp_all
  have lo: "56320 + m mod 1024 < 65536" "56320 \<le> 56320 + m mod 1024" "56320 + m mod 1024 \<le> 57343"
    by simp_all
  have j: "65536 + ((55296 + m div 1024 - 55296) * 1024 + (56320 + m mod 1024 - 56320)) = c"
    using m(2) by simp
  show ?thesis
    unfolding e u_escape_def
    using scan_pair [OF decode_u_escape [OF hi(1)] hi(2,3) decode_u_escape [OF lo(1)] lo(2,3), of r]
    by (simp only: j append_Cons append_Nil)
qed

lemma scan_u_high:
  assumes d: "decode_u a b c d = Some uni"
    and nl: "\<And>l1 l2 l3 l4 r'. r = 92 # 117 # l1 # l2 # l3 # l4 # r' \<Longrightarrow>
               \<exists>uni2. decode_u l1 l2 l3 l4 = Some uni2 \<and> \<not> low_surrogate uni2"
  shows "scan_string (92 # 117 # a # b # c # d # r) = cons_char uni (scan_string r)"
proof (cases "55296 \<le> uni \<and> uni \<le> 56319")
  case False
  then have "uni < 55296 \<or> 56319 < uni" by auto
  with d show ?thesis by (rule scan_u)
next
  case True
  show ?thesis
  proof (cases "\<exists>l1 l2 l3 l4 r'. r = 92 # 117 # l1 # l2 # l3 # l4 # r'")
    case True
    then obtain l1 l2 l3 l4 r' where r: "r = 92 # 117 # l1 # l2 # l3 # l4 # r'" by blast
    from nl [OF r] obtain uni2 where u2: "decode_u l1 l2 l3 l4 = Some uni2" "\<not> low_surrogate uni2"
      by blast
    then have "\<not> (56320 \<le> uni2 \<and> uni2 \<le> 57343)" by (simp add: low_surrogate_def)
    then have nlw: "(if 56320 \<le> uni2 \<and> uni2 \<le> 57343 then X else Y) = Y"
      for X Y :: "(ustring \<times> ustring) option"
      by (rule if_not_P)
    show ?thesis
      using d u2(1) \<open>55296 \<le> uni \<and> uni \<le> 56319\<close> r
      by (subst scan_string.simps(2)) (simp add: nlw)
  next
    case False
    then have "(case r of
                  b # u # l1 # l2 # l3 # l4 # r' \<Rightarrow>
                    if b = 92 \<and> u = 117 then X b u l1 l2 l3 l4 r' else Y
                | _ \<Rightarrow> Y) = Y" for X :: "nat \<Rightarrow> nat \<Rightarrow> nat \<Rightarrow> nat \<Rightarrow> nat \<Rightarrow> nat \<Rightarrow> ustring \<Rightarrow> (ustring \<times> ustring) option" and Y
      by (auto split: list.splits)
    then show ?thesis
      using d by (subst scan_string.simps(2)) simp
  qed
qed

lemma escape_char_start:
  assumes "c < 1114112" and "\<not> low_surrogate c"
    and "escape_char c @ t = 92 # 117 # l1 # l2 # l3 # l4 # r'"
  shows "\<exists>uni2. decode_u l1 l2 l3 l4 = Some uni2 \<and> \<not> low_surrogate uni2"
proof (cases "c < 65536")
  case True
  show ?thesis
  proof (cases "escape_char c = u_escape c")
    case True
    with assms(3) have "l1 = hex_digit (c div 4096 mod 16)" "l2 = hex_digit (c div 256 mod 16)"
      "l3 = hex_digit (c div 16 mod 16)" "l4 = hex_digit (c mod 16)"
      by (simp_all add: u_escape_def)
    then have "decode_u l1 l2 l3 l4 = Some c" using decode_u_escape [OF \<open>c < 65536\<close>] by simp
    with assms(2) show ?thesis by simp
  next
    case False
    then have "\<exists>x. escape_char c = [92, x] \<and> x \<noteq> 117 \<or> escape_char c = [c] \<and> c \<noteq> 92"
      using True by (auto simp: escape_char_def)
    with assms(3) show ?thesis by auto
  qed
next
  case False
  define m where "m = c - 65536"
  have m: "m < 1048576" using assms(1) False by (simp add: m_def)
  then have d: "m div 1024 < 1024" by simp
  have e: "escape_char c = u_escape (55296 + m div 1024) @ u_escape (56320 + m mod 1024)"
    using False d by (simp add: escape_char_def m_def [symmetric])
  have hi: "55296 + m div 1024 < 65536" using d by simp
  from assms(3) have "l1 = hex_digit ((55296 + m div 1024) div 4096 mod 16)"
      "l2 = hex_digit ((55296 + m div 1024) div 256 mod 16)"
      "l3 = hex_digit ((55296 + m div 1024) div 16 mod 16)" "l4 = hex_digit ((55296 + m div 1024) mod 16)"
    unfolding e by (simp_all add: u_escape_def)
  then have "decode_u l1 l2 l3 l4 = Some (55296 + m div 1024)"
    using decode_u_escape [OF hi] by simp
  moreover have "\<not> low_surrogate (55296 + m div 1024)" using d by (simp add: low_surrogate_def)
  ultimately show ?thesis by simp
qed

lemma scan_escape_not_high:
  assumes "c < 1114112" and "\<not> high_surrogate c"
  shows "scan_string (escape_char c @ r) = cons_char c (scan_string r)"
proof (cases "c = 34 \<or> c = 92 \<or> c = 10 \<or> c = 13 \<or> c = 9 \<or> c = 8 \<or> c = 12")
  case True
  then show ?thesis by (rule scan_escape_special)
next
  case sp: False
  show ?thesis
  proof (cases "32 \<le> c \<and> c \<le> 126")
    case True
    with sp show ?thesis by (intro scan_escape_plain) auto
  next
    case np: False
    show ?thesis
    proof (cases "c < 65536")
      case True
      with sp np assms show ?thesis by (intro scan_escape_bmp) (auto simp: high_surrogate_def)
    next
      case False
      with assms(1) show ?thesis by (intro scan_escape_astral) auto
    qed
  qed
qed

lemma scan_escape_high:
  assumes "high_surrogate c"
    and nl: "\<And>l1 l2 l3 l4 r'. r = 92 # 117 # l1 # l2 # l3 # l4 # r' \<Longrightarrow>
               \<exists>uni2. decode_u l1 l2 l3 l4 = Some uni2 \<and> \<not> low_surrogate uni2"
  shows "scan_string (escape_char c @ r) = cons_char c (scan_string r)"
proof -
  have c: "c < 65536" "55296 \<le> c" using assms(1) by (simp_all add: high_surrogate_def)
  then have "escape_char c = u_escape c" by (simp add: escape_char_def)
  then show ?thesis
    using scan_u_high [OF decode_u_escape [OF c(1)] nl] by (simp add: u_escape_def)
qed

lemma scan_encode_body:
  "wf_string s \<Longrightarrow> scan_string (concat (map escape_char s) @ 34 # r) = Some (s, r)"
proof (induction s rule: no_pair.induct)
  case (1 c d s)
  then have wf: "wf_string (d # s)" and c: "c < 1114112" and d: "d < 1114112"
    and np: "\<not> (high_surrogate c \<and> low_surrogate d)"
    by (simp_all add: wf_string_def)
  have ih: "scan_string (escape_char d @ concat (map escape_char s) @ 34 # r) = Some (d # s, r)"
    using "1.IH" [OF wf] by simp
  have "scan_string (escape_char c @ (concat (map escape_char (d # s)) @ 34 # r)) =
        cons_char c (scan_string (concat (map escape_char (d # s)) @ 34 # r))"
  proof (cases "high_surrogate c")
    case True
    with np have nd: "\<not> low_surrogate d" by simp
    from True show ?thesis
    proof (rule scan_escape_high)
      fix l1 l2 l3 l4 r'
      assume "concat (map escape_char (d # s)) @ 34 # r = 92 # 117 # l1 # l2 # l3 # l4 # r'"
      then have "escape_char d @ (concat (map escape_char s) @ 34 # r) = 92 # 117 # l1 # l2 # l3 # l4 # r'"
        by simp
      with d nd show "\<exists>uni2. decode_u l1 l2 l3 l4 = Some uni2 \<and> \<not> low_surrogate uni2"
        by (rule escape_char_start)
    qed
  next
    case False
    with c show ?thesis by (rule scan_escape_not_high)
  qed
  then show ?case by (simp add: ih cons_char_def)
next
  case (2 c)
  then have c: "c < 1114112" by (simp add: wf_string_def)
  have "scan_string (escape_char c @ 34 # r) = cons_char c (scan_string (34 # r))"
  proof (cases "high_surrogate c")
    case True
    then show ?thesis by (rule scan_escape_high) simp
  next
    case False
    with c show ?thesis by (rule scan_escape_not_high)
  qed
  then show ?case by (simp add: scan_quote cons_char_def)
next
  case 3
  then show ?case by (simp add: scan_quote)
qed

subsection \<open>Numbers\<close>

lemma digits_of_0: "digits_of 0 = [48]"
  by (simp add: digits_of.simps)

lemma digits_of_ne: "digits_of n \<noteq> []"
  by (subst digits_of.simps) simp

lemma digits_of_digits: "list_all is_digit (digits_of n)"
proof (induction n rule: digits_of.induct)
  case (1 n)
  show ?case
  proof (cases "n < 10")
    case True
    then show ?thesis by (subst digits_of.simps) (simp add: is_digit_def)
  next
    case False
    have "n mod 10 < 10" by simp
    then have "is_digit (48 + n mod 10)" unfolding is_digit_def by linarith
    with False 1 show ?thesis by (subst digits_of.simps) simp
  qed
qed

lemma nat_of_digits_snoc: "nat_of_digits (ds @ [c]) = 10 * nat_of_digits ds + (c - 48)"
  by (simp add: nat_of_digits_def)

lemma nat_of_digits_of: "nat_of_digits (digits_of n) = n"
proof (induction n rule: digits_of.induct)
  case (1 n)
  show ?case
  proof (cases "n < 10")
    case True
    then show ?thesis by (subst digits_of.simps) (simp add: nat_of_digits_def)
  next
    case False
    with 1 show ?thesis by (subst digits_of.simps) (simp add: nat_of_digits_snoc)
  qed
qed

lemma digits_of_hd: "n \<noteq> 0 \<Longrightarrow> hd (digits_of n) \<noteq> 48"
proof (induction n rule: digits_of.induct)
  case (1 n)
  show ?case
  proof (cases "n < 10")
    case True
    with 1(2) show ?thesis by (subst digits_of.simps) simp
  next
    case False
    then have "n div 10 \<noteq> 0" by simp
    with 1(1) False have "hd (digits_of (n div 10)) \<noteq> 48" by simp
    with False show ?thesis by (subst digits_of.simps) (simp add: digits_of_ne)
  qed
qed

lemma span_digits:
  assumes "list_all is_digit ds" and "r = [] \<or> \<not> is_digit (hd r)"
  shows "takeWhile is_digit (ds @ r) = ds" and "dropWhile is_digit (ds @ r) = r"
proof -
  have t: "takeWhile is_digit r = []" and d: "dropWhile is_digit r = r"
    using assms(2) by (cases r; auto)+
  have a: "\<And>x. x \<in> set ds \<Longrightarrow> is_digit x" using assms(1) by (simp add: list_all_iff)
  show "takeWhile is_digit (ds @ r) = ds" using a t by (simp add: takeWhile_append2)
  show "dropWhile is_digit (ds @ r) = r" using a d by (simp add: dropWhile_append2)
qed

lemma scan_int_digits:
  assumes "r = [] \<or> \<not> is_digit (hd r)"
  shows "scan_int (digits_of m @ r) = Some (digits_of m, r)"
proof (cases "m = 0")
  case True
  then show ?thesis by (simp add: digits_of_0 scan_int_def)
next
  case False
  obtain c cs where cs: "digits_of m = c # cs"
    using digits_of_ne [of m] by (cases "digits_of m") auto
  have "c \<noteq> 48" using digits_of_hd [OF False] cs by simp
  moreover have "is_digit c" using digits_of_digits [of m] cs by simp
  moreover note span_digits [OF digits_of_digits assms, of m]
  ultimately show ?thesis
    unfolding scan_int_def cs [symmetric] by (simp add: cs)
qed

lemma frac_digits_digits: "r < d \<Longrightarrow> list_all is_digit (frac_digits n r d)"
proof (induction n arbitrary: r)
  case 0
  then show ?case by simp
next
  case (Suc n)
  have d: "0 < d" using Suc.prems by simp
  have "10 * r div d < 10" using Suc.prems d by (simp add: div_less_iff_less_mult ac_simps)
  then have "is_digit (48 + 10 * r div d)" unfolding is_digit_def by linarith
  moreover have "10 * r mod d < d" using d by simp
  ultimately show ?case using Suc.IH by simp
qed

lemma frac_digits_ne: "r \<noteq> 0 \<Longrightarrow> 0 < n \<Longrightarrow> frac_digits n r d \<noteq> []"
  by (cases n) simp_all

lemma foldl_digits: "foldl (\<lambda>a c. 10 * a + (c - 48)) a cs =
   a * 10 ^ length cs + foldl (\<lambda>a c. 10 * a + (c - 48)) (0::nat) cs"
proof -
  define f :: "nat \<Rightarrow> nat \<Rightarrow> nat" where "f = (\<lambda>a c. 10 * a + (c - 48))"
  have "foldl f a cs = a * 10 ^ length cs + foldl f 0 cs"
  proof (induction cs arbitrary: a)
    case Nil
    then show ?case by simp
  next
    case (Cons c cs)
    have 1: "foldl f (f a c) cs = f a c * 10 ^ length cs + foldl f 0 cs" by (rule Cons.IH)
    have 2: "foldl f (f 0 c) cs = f 0 c * 10 ^ length cs + foldl f 0 cs" by (rule Cons.IH)
    have 3: "f a c = 10 * a + f 0 c" by (simp add: f_def)
    show ?case
      by (simp only: foldl.simps 1 2) (simp add: 3 algebra_simps)
  qed
  then show ?thesis by (simp add: f_def)
qed

lemma nat_of_digits_Cons:
  "nat_of_digits (c # cs) = (c - 48) * 10 ^ length cs + nat_of_digits cs"
  using foldl_digits [of "c - 48" cs] by (simp add: nat_of_digits_def)

lemma frac_value:
  assumes "frac_rest n r d = 0" and "r < d"
  shows "(of_nat (nat_of_digits (frac_digits n r d)) :: rat) / 10 ^ length (frac_digits n r d) =
         of_nat r / of_nat d"
  using assms
proof (induction n arbitrary: r)
  case 0
  then show ?case by (simp add: nat_of_digits_def)
next
  case (Suc n)
  show ?case
  proof (cases "r = 0")
    case True
    then show ?thesis by (simp add: nat_of_digits_def)
  next
    case False
    have d: "0 < d" using Suc.prems by simp
    define q where "q = 10 * r div d"
    define r' where "r' = 10 * r mod d"
    define ds where "ds = frac_digits n r' d"
    have r': "r' < d" using d by (simp add: r'_def)
    have rest: "frac_rest n r' d = 0" using Suc.prems(1) False by (simp add: r'_def)
    have ih: "(of_nat (nat_of_digits ds) :: rat) / 10 ^ length ds = of_nat r' / of_nat d"
      unfolding ds_def using rest r' by (rule Suc.IH)
    have fd: "frac_digits (Suc n) r d = (48 + q) # ds"
      using False by (simp add: q_def r'_def ds_def)
    have eq: "10 * r = q * d + r'" by (simp add: q_def r'_def)
    have "(of_nat (nat_of_digits ((48 + q) # ds)) :: rat) / 10 ^ length ((48 + q) # ds) =
          (of_nat q * 10 ^ length ds + of_nat (nat_of_digits ds)) / (10 * 10 ^ length ds)"
      by (simp add: nat_of_digits_Cons)
    also have "\<dots> = of_nat q / 10 + (of_nat (nat_of_digits ds) / 10 ^ length ds) / 10"
      by (simp add: field_simps)
    also have "\<dots> = of_nat q / 10 + (of_nat r' / of_nat d) / 10"
      by (simp only: ih)
    also have "\<dots> = (of_nat (q * d + r') :: rat) / (10 * of_nat d)"
      using d by (simp add: field_simps)
    also have "\<dots> = of_nat (10 * r) / (10 * of_nat d)"
      by (simp only: eq)
    also have "\<dots> = of_nat r / of_nat d"
      by simp
    finally show ?thesis unfolding fd .
  qed
qed


lemma num_stop_cases:
  assumes "num_stop r"
  shows "r = [] \<or> \<not> is_digit (hd r)" and "r = [] \<or> hd r \<noteq> 46"
    and "r = [] \<or> (hd r \<noteq> 101 \<and> hd r \<noteq> 69)"
  using assms by (cases r; simp add: num_stop_def)+

lemma scan_exp_none: "num_stop r \<Longrightarrow> scan_exp r = (None, r)"
  by (cases r) (simp_all add: scan_exp_def num_stop_def)

lemma scan_frac_none: "num_stop r \<Longrightarrow> scan_frac r = ([], r)"
  by (cases r) (simp_all add: scan_frac_def num_stop_def)

lemma scan_frac_some:
  assumes "list_all is_digit fp" "fp \<noteq> []" "num_stop r"
  shows "scan_frac (46 # fp @ r) = (fp, r)"
  using span_digits [OF assms(1) num_stop_cases(1) [OF assms(3)]] assms(2)
  by (simp add: scan_frac_def)

lemma scan_sign_digit: "is_digit (hd s) \<Longrightarrow> s \<noteq> [] \<Longrightarrow> scan_sign s = (False, s)"
  by (cases s) (auto simp: scan_sign_def is_digit_def)

lemma scan_sign_minus: "scan_sign (45 # s) = (True, s)"
  by (simp add: scan_sign_def)

lemma digits_of_hd_digit: "is_digit (hd (digits_of m @ t))"
  using digits_of_digits [of m] digits_of_ne [of m] by (cases "digits_of m") auto

lemma parse_number_encode:
  assumes fin: "finite_decimal q" and stop: "num_stop r"
  shows "parse_number (encode_number q @ r) = Some (q, r)"
proof -
  obtain n d where qd: "quotient_of q = (n, d)" by (cases "quotient_of q")
  have dpos: "0 < d" using qd by (rule quotient_of_denom_pos)
  have qval: "q = of_int n / of_int d" using qd by (rule quotient_of_div)
  define a where "a = nat \<bar>n\<bar>"
  define b where "b = nat d"
  have bpos: "0 < b" using dpos by (simp add: b_def)
  define ip where "ip = digits_of (a div b)"
  define fp where "fp = (if a mod b = 0 then [] else frac_digits b (a mod b) b)"
  define tail where "tail = (if a mod b = 0 then r else 46 # fp @ r)"
  have enc: "encode_number q @ r = (if n < 0 then [45] else []) @ ip @ tail"
    by (simp add: encode_number_def qd Let_def a_def b_def ip_def fp_def tail_def)
  have rest0: "frac_rest b (a mod b) b = 0"
    using fin by (simp add: finite_decimal_def qd a_def b_def)
  have fpd: "list_all is_digit fp"
    using bpos by (simp add: fp_def frac_digits_digits)
  have tl: "tail = [] \<or> \<not> is_digit (hd tail)"
    using num_stop_cases(1) [OF stop] by (auto simp: tail_def is_digit_def)
  have s1: "scan_sign (encode_number q @ r) = (n < 0, ip @ tail)"
  proof (cases "n < 0")
    case True
    then show ?thesis by (simp add: enc scan_sign_minus)
  next
    case False
    have "scan_sign (ip @ tail) = (False, ip @ tail)"
      unfolding ip_def using digits_of_hd_digit [of "a div b" tail]
      by (intro scan_sign_digit) (simp_all add: digits_of_ne)
    with False show ?thesis by (simp add: enc)
  qed
  have s2: "scan_int (ip @ tail) = Some (ip, tail)"
    unfolding ip_def using tl by (rule scan_int_digits)
  have s3: "scan_frac tail = (fp, r)"
  proof (cases "a mod b = 0")
    case True
    then show ?thesis using stop by (simp add: tail_def fp_def scan_frac_none)
  next
    case False
    then have "fp \<noteq> []" using bpos by (simp add: fp_def frac_digits_ne)
    with False fpd stop show ?thesis by (simp add: tail_def scan_frac_some)
  qed
  have s4: "scan_exp r = (None, r)" using stop by (rule scan_exp_none)
  have fv: "(of_nat (nat_of_digits fp) :: rat) / 10 ^ length fp = of_nat (a mod b) / of_nat b"
  proof (cases "a mod b = 0")
    case True
    then show ?thesis by (simp add: fp_def nat_of_digits_def)
  next
    case False
    have "a mod b < b" using bpos by simp
    with rest0 have "(of_nat (nat_of_digits (frac_digits b (a mod b) b)) :: rat) /
        10 ^ length (frac_digits b (a mod b) b) = of_nat (a mod b) / of_nat b"
      by (rule frac_value)
    with False show ?thesis by (simp add: fp_def)
  qed
  have "(of_nat a :: rat) = of_nat (a div b * b + a mod b)" by simp
  also have "\<dots> = of_nat (a div b) * of_nat b + of_nat (a mod b)" by (simp only: of_nat_add of_nat_mult)
  finally have "(of_nat a :: rat) / of_nat b = of_nat (a div b) + of_nat (a mod b) / of_nat b"
    using bpos by (simp add: field_simps)
  then have m: "(of_nat (nat_of_digits ip) :: rat) + of_nat (nat_of_digits fp) / 10 ^ length fp =
      of_nat a / of_nat b"
    by (simp add: ip_def nat_of_digits_of fv)
  have ab: "(of_nat a :: rat) = \<bar>of_int n\<bar>" "(of_nat b :: rat) = of_int d"
    using dpos by (simp_all add: a_def b_def)
  have sgn: "n < 0 \<Longrightarrow> - ((of_nat a :: rat) / of_nat b) = q"
    "\<not> n < 0 \<Longrightarrow> (of_nat a :: rat) / of_nat b = q"
    unfolding qval ab by simp_all
  show ?thesis
    unfolding parse_number_def s1 by (simp add: s2 s3 s4 m sgn Let_def)
qed

subsection \<open>Values\<close>

lemma skip_ws_indent: "skip_ws (newline_indent l @ s) = skip_ws s"
proof -
  have "dropWhile json_ws (replicate k 32 @ s) = dropWhile json_ws s" for k
    by (induction k) (simp_all add: json_ws_def)
  then show ?thesis by (simp add: skip_ws_def newline_indent_def json_ws_def)
qed

lemma skip_ws_space: "skip_ws (32 # s) = skip_ws s"
  by (simp add: skip_ws_def json_ws_def)

lemma skip_ws_id: "\<not> json_ws c \<Longrightarrow> skip_ws (c # t) = c # t"
  by (simp add: skip_ws_def)

lemma skip_ws_Nil: "skip_ws [] = []"
  by (simp add: skip_ws_def)

lemma not_ws: "\<not> json_ws 93" "\<not> json_ws 125" "\<not> json_ws 44" "\<not> json_ws 58" "\<not> json_ws 34"
  by (simp_all add: json_ws_def)

lemma pv_string: "scan_string cs = Some (s, r) \<Longrightarrow> parse_value (Suc n) (34 # cs) = Some (JStr s, r)"
  by simp

lemma pv_array_empty: "parse_value (Suc n) (91 # 93 # r) = Some (JArr [], r)"
  by (simp add: skip_ws_id not_ws)

lemma pv_object_empty: "parse_value (Suc n) (123 # 125 # r) = Some (JObj [], r)"
  by (simp add: skip_ws_id not_ws)

lemma pv_array:
  "skip_ws cs = d # t \<Longrightarrow> d \<noteq> 93 \<Longrightarrow> parse_elements n (d # t) = Some (xs, r)
   \<Longrightarrow> parse_value (Suc n) (91 # cs) = Some (JArr xs, r)"
  by simp

lemma pv_object:
  "skip_ws cs = d # t \<Longrightarrow> d \<noteq> 125 \<Longrightarrow> parse_members n (d # t) = Some (ps, r)
   \<Longrightarrow> parse_value (Suc n) (123 # cs) = Some (JObj (dict_of ps), r)"
  by simp

lemma pv_null: "parse_value (Suc n) (ustr ''null'' @ r) = Some (JNull, r)"
  by (simp add: ustr_def)

lemma pv_true: "parse_value (Suc n) (ustr ''true'' @ r) = Some (JBool True, r)"
  by (simp add: ustr_def)

lemma pv_false: "parse_value (Suc n) (ustr ''false'' @ r) = Some (JBool False, r)"
  by (simp add: ustr_def)

lemma pv_number:
  assumes "s = c # t" and "c = 45 \<or> is_digit c" and "parse_number s = Some (q, r)"
  shows "parse_value (Suc n) s = Some (JNum q, r)"
proof -
  have c: "c \<noteq> 34" "c \<noteq> 123" "c \<noteq> 91" "c \<noteq> 110" "c \<noteq> 116" "c \<noteq> 102"
    using assms(2) by (auto simp: is_digit_def)
  have "take 4 s \<noteq> ustr ''null''" "take 4 s \<noteq> ustr ''true''" "take 5 s \<noteq> ustr ''false''"
    using c unfolding assms(1) by (auto simp: ustr_def take_Cons')
  then show ?thesis
    using c assms(3) unfolding assms(1) [symmetric]
    by (subst parse_value.simps) (simp add: assms(1))
qed

lemma pe_last:
  "parse_value n s = Some (v, t) \<Longrightarrow> skip_ws t = 93 # r \<Longrightarrow> parse_elements (Suc n) s = Some ([v], r)"
  by simp

lemma pe_more:
  "parse_value n s = Some (v, t) \<Longrightarrow> skip_ws t = 44 # u \<Longrightarrow>
   parse_elements n (skip_ws u) = Some (vs, r) \<Longrightarrow> parse_elements (Suc n) s = Some (v # vs, r)"
  by simp

lemma pm_last:
  "scan_string cs = Some (k, t) \<Longrightarrow> skip_ws t = 58 # t1 \<Longrightarrow>
   parse_value n (skip_ws t1) = Some (v, t2) \<Longrightarrow> skip_ws t2 = 125 # r \<Longrightarrow>
   parse_members (Suc n) (34 # cs) = Some ([(k, v)], r)"
  by simp

lemma pm_more:
  "scan_string cs = Some (k, t) \<Longrightarrow> skip_ws t = 58 # t1 \<Longrightarrow>
   parse_value n (skip_ws t1) = Some (v, t2) \<Longrightarrow> skip_ws t2 = 44 # t3 \<Longrightarrow>
   parse_members n (skip_ws t3) = Some (kvs, r) \<Longrightarrow>
   parse_members (Suc n) (34 # cs) = Some ((k, v) # kvs, r)"
  by simp

lemma dict_of_distinct:
  assumes "distinct (map fst kvs)"
  shows "dict_of kvs = kvs"
proof -
  have "distinct (map fst (d @ kvs)) \<Longrightarrow>
        foldl (\<lambda>d kv. AList.update (fst kv) (snd kv) d) d kvs = d @ kvs" for d
  proof (induction kvs arbitrary: d)
    case Nil
    then show ?case by simp
  next
    case (Cons kv kvs)
    have "fst kv \<notin> fst ` set d" using Cons.prems by auto
    then have "map_of d (fst kv) = None" by (simp add: map_of_eq_None_iff)
    then have u: "AList.update (fst kv) (snd kv) d = d @ [kv]" by (simp add: update_fresh)
    have "distinct (map fst ((d @ [kv]) @ kvs))" using Cons.prems by simp
    from Cons.IH [OF this] show ?case by (simp add: u)
  qed
  from this [of "[]"] assms show ?thesis by (simp add: dict_of_def)
qed

lemma encode_number_first: "\<exists>c t. encode_number q = c # t \<and> (c = 45 \<or> is_digit c)"
proof -
  obtain n d where qd: "quotient_of q = (n, d)" by (cases "quotient_of q")
  obtain c t where ct: "digits_of (nat \<bar>n\<bar> div nat d) = c # t"
    using digits_of_ne [of "nat \<bar>n\<bar> div nat d"] by (cases "digits_of (nat \<bar>n\<bar> div nat d)") auto
  then have "is_digit c" using digits_of_digits [of "nat \<bar>n\<bar> div nat d"] by simp
  with ct show ?thesis
    by (cases "n < 0") (simp_all add: encode_number_def qd Let_def)
qed

lemma dumps_at_first:
  "\<exists>c t. dumps_at l v = c # t \<and> \<not> json_ws c \<and> c \<noteq> 93 \<and> c \<noteq> 125"
proof (cases v)
  case (JNum q)
  from encode_number_first [of q] obtain c t where "encode_number q = c # t" "c = 45 \<or> is_digit c"
    by blast
  with JNum show ?thesis by (auto simp: json_ws_def is_digit_def)
next
  case (JArr xs)
  then show ?thesis by (cases xs) (simp_all add: json_ws_def ustr_def)
next
  case (JObj kvs)
  then show ?thesis by (cases kvs) (simp_all add: json_ws_def ustr_def)
qed (simp_all add: json_ws_def ustr_def encode_string_def)

lemma dumps_items_first:
  assumes "xs \<noteq> []"
  shows "\<exists>c t. dumps_items l xs = c # t \<and> \<not> json_ws c \<and> c \<noteq> 93"
proof -
  obtain x ys where xs: "xs = x # ys" using assms by (cases xs) auto
  from dumps_at_first [of l x] obtain c t where "dumps_at l x = c # t" "\<not> json_ws c" "c \<noteq> 93"
    by blast
  then show ?thesis unfolding xs by (cases ys) simp_all
qed

lemma dumps_members_first:
  assumes "kvs \<noteq> []"
  shows "\<exists>t. dumps_members l kvs = 34 # t"
proof -
  obtain k v ys where "kvs = (k, v) # ys" using assms by (cases kvs) auto
  then show ?thesis by (cases ys) (simp_all add: encode_string_def)
qed

lemma num_stop_simps: "num_stop (44 # s)" "num_stop (newline_indent l @ s)" "num_stop []"
  by (simp_all add: num_stop_def newline_indent_def is_digit_def)

lemma skip_to_value: "skip_ws (newline_indent l @ dumps_at k v @ s) = dumps_at k v @ s"
proof -
  from dumps_at_first [of k v] obtain c t where "dumps_at k v = c # t" "\<not> json_ws c" by blast
  then show ?thesis by (simp add: skip_ws_indent skip_ws_id)
qed

lemma skip_to_items:
  "xs \<noteq> [] \<Longrightarrow> skip_ws (newline_indent l @ dumps_items k xs @ s) = dumps_items k xs @ s"
proof -
  assume "xs \<noteq> []"
  from dumps_items_first [OF this, of k] obtain c t where "dumps_items k xs = c # t" "\<not> json_ws c"
    by blast
  then show ?thesis by (simp add: skip_ws_indent skip_ws_id)
qed

lemma skip_to_members:
  "kvs \<noteq> [] \<Longrightarrow> skip_ws (newline_indent l @ dumps_members k kvs @ s) = dumps_members k kvs @ s"
proof -
  assume "kvs \<noteq> []"
  from dumps_members_first [OF this, of k] obtain t where "dumps_members k kvs = 34 # t" by blast
  then show ?thesis by (simp add: skip_ws_indent skip_ws_id not_ws)
qed

lemma skip_to_close:
  "skip_ws (newline_indent l @ 93 # s) = 93 # s" "skip_ws (newline_indent l @ 125 # s) = 125 # s"
  by (simp_all add: skip_ws_indent skip_ws_id not_ws)


lemma roundtrip_value:
    "wf_json v \<Longrightarrow> length (dumps_at l v) \<le> n \<Longrightarrow> num_stop r \<Longrightarrow>
     parse_value n (dumps_at l v @ r) = Some (v, r)"
  and roundtrip_items:
    "xs \<noteq> [] \<Longrightarrow> wf_items xs \<Longrightarrow> length (dumps_items l xs) < n \<Longrightarrow>
     parse_elements n (dumps_items l xs @ newline_indent l' @ 93 # r) = Some (xs, r)"
  and roundtrip_members:
    "kvs \<noteq> [] \<Longrightarrow> wf_members kvs \<Longrightarrow> length (dumps_members l kvs) < n \<Longrightarrow>
     parse_members n (dumps_members l kvs @ newline_indent l' @ 125 # r) = Some (kvs, r)"
proof (induction l v and l xs and l kvs arbitrary: n r and n l' r and n l' r
       rule: dumps_at_dumps_items_dumps_members.induct)
  case (1 l)
  then obtain m where "n = Suc m" by (cases n) (auto simp: ustr_def)
  then show ?case by (simp only: dumps_at.simps pv_null)
next
  case (2 l b)
  then obtain m where "n = Suc m" by (cases n; cases b) (auto simp: ustr_def)
  then show ?case by (cases b) (simp_all only: dumps_at.simps if_True if_False pv_true pv_false)
next
  case (3 l q)
  from encode_number_first [of q] obtain c t where ct: "encode_number q = c # t" "c = 45 \<or> is_digit c"
    by blast
  with 3 obtain m where m: "n = Suc m" by (cases n) auto
  have "parse_number (encode_number q @ r) = Some (q, r)"
    using 3(1,3) by (intro parse_number_encode) simp_all
  then have "parse_value (Suc m) (encode_number q @ r) = Some (JNum q, r)"
    using ct by (intro pv_number [where c = c and t = "t @ r"]) simp_all
  then show ?case by (simp add: m)
next
  case (4 l s)
  then obtain m where m: "n = Suc m" by (cases n) (auto simp: encode_string_def)
  have "scan_string (concat (map escape_char s) @ 34 # r) = Some (s, r)"
    using 4(1) by (intro scan_encode_body) simp
  then have "parse_value (Suc m) (34 # concat (map escape_char s) @ 34 # r) = Some (JStr s, r)"
    by (rule pv_string)
  then show ?case by (simp add: m encode_string_def)
next
  case (5 l)
  then obtain m where "n = Suc m" by (cases n) (auto simp: ustr_def)
  then show ?case using pv_array_empty [of m r] by (simp add: ustr_def)
next
  case (6 l x xs)
  from 6(3) obtain m where m: "n = Suc m" by (cases n) auto
  have fuel: "length (dumps_items (Suc l) (x # xs)) < m" using 6(3) m by simp
  have wf: "wf_items (x # xs)" using 6(2) by simp
  from dumps_items_first [of "x # xs" "Suc l"] obtain c t where
    ct: "dumps_items (Suc l) (x # xs) = c # t" "c \<noteq> 93" by auto
  have items: "parse_elements m (dumps_items (Suc l) (x # xs) @ newline_indent l @ 93 # r) = Some (x # xs, r)"
    using wf fuel by (intro "6.IH") simp_all
  have sk: "skip_ws (newline_indent (Suc l) @ dumps_items (Suc l) (x # xs) @ newline_indent l @ 93 # r) =
        c # t @ newline_indent l @ 93 # r"
    using skip_to_items [of "x # xs" "Suc l" "Suc l" "newline_indent l @ 93 # r"] ct(1) by simp
  have "parse_value (Suc m)
          (91 # newline_indent (Suc l) @ dumps_items (Suc l) (x # xs) @ newline_indent l @ 93 # r) =
        Some (JArr (x # xs), r)"
    using sk ct(2) items [unfolded ct(1)] by (intro pv_array [where d = c and t = "t @ newline_indent l @ 93 # r"]) simp_all
  then show ?case by (simp add: m)
next
  case (7 l)
  then obtain m where "n = Suc m" by (cases n) (auto simp: ustr_def)
  then show ?case using pv_object_empty [of m r] by (simp add: ustr_def)
next
  case (8 l kv kvs)
  from 8(3) obtain m where m: "n = Suc m" by (cases n) auto
  have fuel: "length (dumps_members (Suc l) (kv # kvs)) < m" using 8(3) m by simp
  have wf: "wf_members (kv # kvs)" and dist: "distinct (map fst (kv # kvs))" using 8(2) by simp_all
  from dumps_members_first [of "kv # kvs" "Suc l"] obtain t where
    ct: "dumps_members (Suc l) (kv # kvs) = 34 # t" by auto
  have mem: "parse_members m (dumps_members (Suc l) (kv # kvs) @ newline_indent l @ 125 # r) =
      Some (kv # kvs, r)"
    using wf fuel by (intro "8.IH") simp_all
  have sk: "skip_ws (newline_indent (Suc l) @ dumps_members (Suc l) (kv # kvs) @ newline_indent l @ 125 # r) =
        34 # t @ newline_indent l @ 125 # r"
    using skip_to_members [of "kv # kvs" "Suc l" "Suc l" "newline_indent l @ 125 # r"] ct by simp
  have "parse_value (Suc m)
          (123 # newline_indent (Suc l) @ dumps_members (Suc l) (kv # kvs) @ newline_indent l @ 125 # r) =
        Some (JObj (dict_of (kv # kvs)), r)"
    using sk mem [unfolded ct] by (intro pv_object [where d = 34 and t = "t @ newline_indent l @ 125 # r"]) simp_all
  then show ?case by (simp add: m dict_of_distinct [OF dist])
next
  case (9 l)
  then show ?case by simp
next
  case (10 l x)
  from 10(4) obtain m where m: "n = Suc m" by (cases n) auto
  have "parse_value m (dumps_at l x @ newline_indent l' @ 93 # r) = Some (x, newline_indent l' @ 93 # r)"
    using 10(3,4) m by (intro "10.IH") (simp_all add: num_stop_simps)
  then have "parse_elements (Suc m) (dumps_at l x @ newline_indent l' @ 93 # r) = Some ([x], r)"
    by (rule pe_last) (rule skip_to_close)
  then show ?case by (simp add: m)
next
  case (11 l x y ys)
  from 11(5) obtain m where m: "n = Suc m" by (cases n) auto
  define rest where "rest = dumps_items l (y # ys) @ newline_indent l' @ 93 # r"
  have v: "parse_value m (dumps_at l x @ 44 # newline_indent l @ rest) =
      Some (x, 44 # newline_indent l @ rest)"
    using 11(4,5) m by (intro "11.IH"(1)) (simp_all add: num_stop_simps)
  have sk: "skip_ws (newline_indent l @ rest) = rest"
    unfolding rest_def by (rule skip_to_items) simp
  have r: "parse_elements m rest = Some (y # ys, r)"
    unfolding rest_def using 11(4,5) m by (intro "11.IH"(2)) simp_all
  have "parse_elements (Suc m) (dumps_at l x @ 44 # newline_indent l @ rest) = Some (x # y # ys, r)"
    using v by (rule pe_more [where u = "newline_indent l @ rest"]) (simp_all add: skip_ws_id not_ws sk r)
  then show ?case by (simp add: m rest_def)
next
  case (12 l)
  then show ?case by simp
next
  case (13 l k v)
  from 13(4) obtain m where m: "n = Suc m" by (cases n) auto
  define tail where "tail = newline_indent l' @ 125 # r"
  have key: "scan_string (concat (map escape_char k) @ 34 # 58 # 32 # dumps_at l v @ tail) =
      Some (k, 58 # 32 # dumps_at l v @ tail)"
    using 13(3) by (intro scan_encode_body) simp
  have sk: "skip_ws (32 # dumps_at l v @ tail) = dumps_at l v @ tail"
    using skip_to_value [of 0 l v tail] by (simp add: skip_ws_space newline_indent_def skip_ws_def json_ws_def)
  have val: "parse_value m (dumps_at l v @ tail) = Some (v, tail)"
    unfolding tail_def using 13(3,4) m
    by (intro "13.IH") (simp_all add: num_stop_simps encode_string_def)
  have c1: "skip_ws (58 # 32 # dumps_at l v @ tail) = 58 # 32 # dumps_at l v @ tail"
    by (simp add: skip_ws_id not_ws)
  have c2: "parse_value m (skip_ws (32 # dumps_at l v @ tail)) = Some (v, tail)"
    by (simp only: sk val)
  have c3: "skip_ws tail = 125 # r"
    unfolding tail_def by (rule skip_to_close)
  have "parse_members (Suc m) (34 # concat (map escape_char k) @ 34 # 58 # 32 # dumps_at l v @ tail) =
      Some ([(k, v)], r)"
    by (rule pm_last [OF key c1 c2 c3])
  then show ?case by (simp add: m encode_string_def tail_def)
next
  case (14 l k v kv kvs)
  from 14(5) obtain m where m: "n = Suc m" by (cases n) auto
  define rest where "rest = dumps_members l (kv # kvs) @ newline_indent l' @ 125 # r"
  define tail where "tail = 44 # newline_indent l @ rest"
  have key: "scan_string (concat (map escape_char k) @ 34 # 58 # 32 # dumps_at l v @ tail) =
      Some (k, 58 # 32 # dumps_at l v @ tail)"
    using 14(4) by (intro scan_encode_body) simp
  have sk: "skip_ws (32 # dumps_at l v @ tail) = dumps_at l v @ tail"
    using skip_to_value [of 0 l v tail] by (simp add: skip_ws_space newline_indent_def skip_ws_def json_ws_def)
  have val: "parse_value m (dumps_at l v @ tail) = Some (v, tail)"
    unfolding tail_def using 14(4,5) m
    by (intro "14.IH"(1)) (simp_all add: num_stop_simps encode_string_def)
  have sk2: "skip_ws (newline_indent l @ rest) = rest"
    unfolding rest_def by (rule skip_to_members) simp
  have r: "parse_members m rest = Some (kv # kvs, r)"
    unfolding rest_def using 14(4,5) m by (intro "14.IH"(2)) (simp_all add: encode_string_def)
  have c1: "skip_ws (58 # 32 # dumps_at l v @ tail) = 58 # 32 # dumps_at l v @ tail"
    by (simp add: skip_ws_id not_ws)
  have c2: "parse_value m (skip_ws (32 # dumps_at l v @ tail)) = Some (v, tail)"
    by (simp only: sk val)
  have c3: "skip_ws tail = 44 # newline_indent l @ rest"
    unfolding tail_def by (simp add: skip_ws_id not_ws)
  have c4: "parse_members m (skip_ws (newline_indent l @ rest)) = Some (kv # kvs, r)"
    by (simp only: sk2 r)
  have "parse_members (Suc m) (34 # concat (map escape_char k) @ 34 # 58 # 32 # dumps_at l v @ tail) =
      Some ((k, v) # kv # kvs, r)"
    by (rule pm_more [OF key c1 c2 c3 c4])
  then show ?case by (simp add: m encode_string_def tail_def rest_def)
qed

lemma loads_dumps: "wf_json v \<Longrightarrow> py_json_loads (py_json_dumps v) = Some v"
proof -
  assume wf: "wf_json v"
  from dumps_at_first [of 0 v] obtain c t where ct: "dumps_at 0 v = c # t" "\<not> json_ws c" by blast
  have "parse_value (Suc (length (dumps_at 0 v))) (dumps_at 0 v @ []) = Some (v, [])"
    using wf by (intro roundtrip_value) (simp_all add: num_stop_simps)
  then show ?thesis
    using ct by (simp add: py_json_loads_def py_json_dumps_def skip_ws_id skip_ws_Nil)
qed

section \<open>Import and export\<close>

text \<open>
  Claim C2, as stated, fails: input of the wrong shape is not rejected. A file whose
  content parses to \<open>{"foo": null}\<close>, with an unknown key and none of the expected
  ones, is imported: it is stored and becomes the active conversation.
\<close>

theorem import_malformed_counterexample:
  "import_conversation (\<lambda>f. f) (ustr ''id2'') (Inr (JObj [(ustr ''foo'', JNull)]))
     \<lparr>conversations = [(ustr ''id1'', new_conversation (ustr ''t1''))],
      active_conversation = ustr ''id1''\<rparr> =
   (\<lparr>conversations = [(ustr ''id1'', new_conversation (ustr ''t1'')),
                       (ustr ''id2'', JObj [(ustr ''foo'', JNull)])],
     active_conversation = ustr ''id2''\<rparr>,
    Success (9989 # ustr '' Conversation imported successfully!''), Rerun)"
  by (simp add: import_conversation_def ustr_def)

text \<open>
  Claim C2, amended. The imported value is stored under the newly generated id
  \<open>new_id\<close>, which does not depend on the input, and that id becomes the active one; when
  \<open>new_id\<close> is not yet a key, the store is the old store with the one entry added at the
  end. Any value that parses is accepted, whatever its shape. When the input does not
  parse, the error is shown and the store and the active id are unchanged.
\<close>

theorem import_conversation_spec:
  "(json_load f = Inr v \<longrightarrow>
      import_conversation json_load new_id f st =
        (\<lparr>conversations = AList.update new_id v (conversations st),
          active_conversation = new_id\<rparr>,
         Success (9989 # ustr '' Conversation imported successfully!''), Rerun) \<and>
      (map_of (conversations st) new_id = None \<longrightarrow>
         AList.update new_id v (conversations st) = conversations st @ [(new_id, v)])) \<and>
   (json_load f = Inl e \<longrightarrow>
      import_conversation json_load new_id f st =
        (st, Error (cross_mark # ustr '' Error importing conversation: '' @ e), Continue))"
  by (simp add: import_conversation_def update_fresh)

theorem import_conversation_spec_witness:
  "import_conversation (\<lambda>f. f) (ustr ''id2'')
     (Inr (JObj [(ustr ''id'', JStr (ustr ''id1'')), (ustr ''title'', JStr (ustr ''Old''))]))
     \<lparr>conversations = [(ustr ''id1'', JObj [])], active_conversation = ustr ''id1''\<rparr> =
     (\<lparr>conversations =
         [(ustr ''id1'', JObj []),
          (ustr ''id2'', JObj [(ustr ''id'', JStr (ustr ''id1'')), (ustr ''title'', JStr (ustr ''Old''))])],
       active_conversation = ustr ''id2''\<rparr>,
      Success (9989 # ustr '' Conversation imported successfully!''), Rerun) \<and>
   import_conversation (\<lambda>f. f) (ustr ''id2'') (Inl (ustr ''Expecting value''))
     \<lparr>conversations = [(ustr ''id1'', JObj [])], active_conversation = ustr ''id1''\<rparr> =
     (\<lparr>conversations = [(ustr ''id1'', JObj [])], active_conversation = ustr ''id1''\<rparr>,
      Error (cross_mark # ustr '' Error importing conversation: '' @ ustr ''Expecting value''),
      Continue)"
  using
    import_conversation_spec [where json_load = "\<lambda>f. f" and new_id = "ustr ''id2''"
      and f = "Inr (JObj [(ustr ''id'', JStr (ustr ''id1'')), (ustr ''title'', JStr (ustr ''Old''))])"
      and v = "JObj [(ustr ''id'', JStr (ustr ''id1'')), (ustr ''title'', JStr (ustr ''Old''))]"
      and st = "\<lparr>conversations = [(ustr ''id1'', JObj [])], active_conversation = ustr ''id1''\<rparr>"]
    import_conversation_spec [where json_load = "\<lambda>f. f" and new_id = "ustr ''id2''"
      and f = "Inl (ustr ''Expecting value'')" and e = "ustr ''Expecting value''"
      and st = "\<lparr>conversations = [(ustr ''id1'', JObj [])], active_conversation = ustr ''id1''\<rparr>"]
  by (simp add: ustr_def)

lemma replicate_num: "replicate (numeral k) x = x # replicate (pred_numeral k) x"
  by (simp add: numeral_eq_Suc)

text \<open>
  Claim C9, as stated, fails for a conversation in which a string holds a high surrogate
  code point directly followed by a low one. Such a conversation can be in the store,
  since import takes any file and the reader decodes its bytes with surrogates let
  through. With a title of the two code points U+D83D and U+DE00, export writes the two
  escapes one after the other, and import reads them back as the single character
  U+1F600: the title read back differs.
\<close>

theorem roundtrip_surrogate_counterexample:
  "export_conversation py_json_dumps (ustr ''id1'') \<lparr>conversations = [(ustr ''id1'', (JObj [(ustr ''title'', JStr [55357, 56832]),
           (ustr ''messages'', JArr []),
           (ustr ''created_at'', JStr (ustr ''t1'')),
           (ustr ''model'', JStr (ustr ''anthropic/claude-sonnet-4'')),
           (ustr ''personality'', JStr (ustr ''Assistant'')),
           (ustr ''temperature'', JNum (7 / 10))]))], active_conversation = ustr ''id1''\<rparr> = Some (py_json_dumps (JObj [(ustr ''title'', JStr [55357, 56832]),
           (ustr ''messages'', JArr []),
           (ustr ''created_at'', JStr (ustr ''t1'')),
           (ustr ''model'', JStr (ustr ''anthropic/claude-sonnet-4'')),
           (ustr ''personality'', JStr (ustr ''Assistant'')),
           (ustr ''temperature'', JNum (7 / 10))])) \<and>
   import_conversation (py_json_load (\<lambda>f. ustr ''Expecting value'')) (ustr ''id2'')
       (py_json_dumps (JObj [(ustr ''title'', JStr [55357, 56832]),
           (ustr ''messages'', JArr []),
           (ustr ''created_at'', JStr (ustr ''t1'')),
           (ustr ''model'', JStr (ustr ''anthropic/claude-sonnet-4'')),
           (ustr ''personality'', JStr (ustr ''Assistant'')),
           (ustr ''temperature'', JNum (7 / 10))])) \<lparr>conversations = [(ustr ''id1'', (JObj [(ustr ''title'', JStr [55357, 56832]),
           (ustr ''messages'', JArr []),
           (ustr ''created_at'', JStr (ustr ''t1'')),
           (ustr ''model'', JStr (ustr ''anthropic/claude-sonnet-4'')),
           (ustr ''personality'', JStr (ustr ''Assistant'')),
           (ustr ''temperature'', JNum (7 / 10))]))], active_conversation = ustr ''id1''\<rparr> =
     (\<lparr>conversations = [(ustr ''id1'', (JObj [(ustr ''title'', JStr [55357, 56832]),
           (ustr ''messages'', JArr []),
           (ustr ''created_at'', JStr (ustr ''t1'')),
           (ustr ''model'', JStr (ustr ''anthropic/claude-sonnet-4'')),
           (ustr ''personality'', JStr (ustr ''Assistant'')),
           (ustr ''temperature'', JNum (7 / 10))])), (ustr ''id2'', (JObj [(ustr ''title'', JStr [128512]),
           (ustr ''messages'', JArr []),
           (ustr ''created_at'', JStr (ustr ''t1'')),
           (ustr ''model'', JStr (ustr ''anthropic/claude-sonnet-4'')),
           (ustr ''personality'', JStr (ustr ''Assistant'')),
           (ustr ''temperature'', JNum (7 / 10))]))],
       active_conversation = ustr ''id2''\<rparr>,
      Success (9989 # ustr '' Conversation imported successfully!''), Rerun) \<and>
   py_getitem (JObj [(ustr ''title'', JStr [55357, 56832]),
           (ustr ''messages'', JArr []),
           (ustr ''created_at'', JStr (ustr ''t1'')),
           (ustr ''model'', JStr (ustr ''anthropic/claude-sonnet-4'')),
           (ustr ''personality'', JStr (ustr ''Assistant'')),
           (ustr ''temperature'', JNum (7 / 10))]) (ustr ''title'') = Inr (JStr [55357, 56832]) \<and>
   py_getitem (JObj [(ustr ''title'', JStr [128512]),
           (ustr ''messages'', JArr []),
           (ustr ''created_at'', JStr (ustr ''t1'')),
           (ustr ''model'', JStr (ustr ''anthropic/claude-sonnet-4'')),
           (ustr ''personality'', JStr (ustr ''Assistant'')),
           (ustr ''temperature'', JNum (7 / 10))]) (ustr ''title'') = Inr (JStr [128512])"
proof -
  have fd: "finite_decimal (7 / 10)" by code_simp
  have wf: "wf_json (JObj [(ustr ''title'', JStr [128512]),
           (ustr ''messages'', JArr []),
           (ustr ''created_at'', JStr (ustr ''t1'')),
           (ustr ''model'', JStr (ustr ''anthropic/claude-sonnet-4'')),
           (ustr ''personality'', JStr (ustr ''Assistant'')),
           (ustr ''temperature'', JNum (7 / 10))])"
    by (simp add: ustr_def wf_string_def high_surrogate_def low_surrogate_def fd)
  have e: "encode_string [55357, 56832] = encode_string [128512]"
    by (simp add: encode_string_def escape_char_def u_escape_def hex_digit_def)
  have d: "py_json_dumps (JObj [(ustr ''title'', JStr [55357, 56832]),
           (ustr ''messages'', JArr []),
           (ustr ''created_at'', JStr (ustr ''t1'')),
           (ustr ''model'', JStr (ustr ''anthropic/claude-sonnet-4'')),
           (ustr ''personality'', JStr (ustr ''Assistant'')),
           (ustr ''temperature'', JNum (7 / 10))]) = py_json_dumps (JObj [(ustr ''title'', JStr [128512]),
           (ustr ''messages'', JArr []),
           (ustr ''created_at'', JStr (ustr ''t1'')),
           (ustr ''model'', JStr (ustr ''anthropic/claude-sonnet-4'')),
           (ustr ''personality'', JStr (ustr ''Assistant'')),
           (ustr ''temperature'', JNum (7 / 10))])"
    by (simp add: py_json_dumps_def e)
  have l: "py_json_loads (py_json_dumps (JObj [(ustr ''title'', JStr [55357, 56832]),
           (ustr ''messages'', JArr []),
           (ustr ''created_at'', JStr (ustr ''t1'')),
           (ustr ''model'', JStr (ustr ''anthropic/claude-sonnet-4'')),
           (ustr ''personality'', JStr (ustr ''Assistant'')),
           (ustr ''temperature'', JNum (7 / 10))])) = Some (JObj [(ustr ''title'', JStr [128512]),
           (ustr ''messages'', JArr []),
           (ustr ''created_at'', JStr (ustr ''t1'')),
           (ustr ''model'', JStr (ustr ''anthropic/claude-sonnet-4'')),
           (ustr ''personality'', JStr (ustr ''Assistant'')),
           (ustr ''temperature'', JNum (7 / 10))])"
    unfolding d using wf by (rule loads_dumps)
  have ne: "ustr ''id1'' \<noteq> ustr ''id2''" by (simp add: ustr_def)
  show ?thesis
    using ne by (simp add: export_conversation_def import_conversation_def py_json_load_def l)
qed

text \<open>
  Claim C9, amended. For a conversation of the store in which no string holds a high
  surrogate directly followed by a low surrogate, and whose numbers have a finite decimal
  expansion (as the numbers of the program have), exporting it and importing the
  exported text stores, under the new id, a conversation equal to the exported one in
  every entry, so in particular in title, messages, model, personality and temperature;
  the new id becomes the active one, and the original stays in the store when the ids
  differ. The text that is written and read is that of \<open>py_json_dumps\<close> and
  \<open>py_json_loads\<close>; nothing is assumed of them.
\<close>

theorem export_import_roundtrip:
  assumes "map_of (conversations st) cid = Some c"
    and "wf_json c"
  shows "export_conversation py_json_dumps cid st = Some (py_json_dumps c) \<and>
    py_json_load str_e (py_json_dumps c) = Inr c \<and>
    (case import_conversation (py_json_load str_e) new_id (py_json_dumps c) st of
       (st', n, fl) \<Rightarrow>
         active_conversation st' = new_id \<and>
         map_of (conversations st') new_id = Some c \<and>
         (new_id \<noteq> cid \<longrightarrow> map_of (conversations st') cid = Some c))"
proof -
  have "py_json_load str_e (py_json_dumps c) = Inr c"
    using loads_dumps [OF assms(2)] by (simp add: py_json_load_def)
  with assms(1) show ?thesis
    by (simp add: export_conversation_def import_conversation_def update_conv')
qed

theorem export_import_roundtrip_witness:
  "py_json_dumps (JObj [(ustr ''title'', JStr (ustr ''Hi'' @ [55357])),
           (ustr ''messages'',
              JArr [user_message (ustr ''Hi''), assistant_message (ustr ''Hello!'')]),
           (ustr ''temperature'', JNum (7 / 10))]) =
     ustr ''{'' @
     10 # ustr ''  \"title\": \"Hi'' @ 92 # ustr ''ud83d\",'' @
     10 # ustr ''  \"messages\": ['' @
     10 # ustr ''    {'' @
     10 # ustr ''      \"role\": \"user\",'' @
     10 # ustr ''      \"content\": \"Hi\"'' @
     10 # ustr ''    },'' @
     10 # ustr ''    {'' @
     10 # ustr ''      \"role\": \"assistant\",'' @
     10 # ustr ''      \"content\": \"Hello!\"'' @
     10 # ustr ''    }'' @
     10 # ustr ''  ],'' @
     10 # ustr ''  \"temperature\": 0.7'' @
     10 # ustr ''}'' \<and>
   export_conversation py_json_dumps (ustr ''id1'') \<lparr>conversations = [(ustr ''id1'', (JObj [(ustr ''title'', JStr (ustr ''Hi'' @ [55357])),
           (ustr ''messages'',
              JArr [user_message (ustr ''Hi''), assistant_message (ustr ''Hello!'')]),
           (ustr ''temperature'', JNum (7 / 10))]))], active_conversation = ustr ''id1''\<rparr> = Some (py_json_dumps (JObj [(ustr ''title'', JStr (ustr ''Hi'' @ [55357])),
           (ustr ''messages'',
              JArr [user_message (ustr ''Hi''), assistant_message (ustr ''Hello!'')]),
           (ustr ''temperature'', JNum (7 / 10))])) \<and>
   py_json_load (\<lambda>f. ustr ''Expecting value'') (py_json_dumps (JObj [(ustr ''title'', JStr (ustr ''Hi'' @ [55357])),
           (ustr ''messages'',
              JArr [user_message (ustr ''Hi''), assistant_message (ustr ''Hello!'')]),
           (ustr ''temperature'', JNum (7 / 10))])) = Inr (JObj [(ustr ''title'', JStr (ustr ''Hi'' @ [55357])),
           (ustr ''messages'',
              JArr [user_message (ustr ''Hi''), assistant_message (ustr ''Hello!'')]),
           (ustr ''temperature'', JNum (7 / 10))]) \<and>
   (case import_conversation (py_json_load (\<lambda>f. ustr ''Expecting value'')) (ustr ''id2'')
           (py_json_dumps (JObj [(ustr ''title'', JStr (ustr ''Hi'' @ [55357])),
           (ustr ''messages'',
              JArr [user_message (ustr ''Hi''), assistant_message (ustr ''Hello!'')]),
           (ustr ''temperature'', JNum (7 / 10))])) \<lparr>conversations = [(ustr ''id1'', (JObj [(ustr ''title'', JStr (ustr ''Hi'' @ [55357])),
           (ustr ''messages'',
              JArr [user_message (ustr ''Hi''), assistant_message (ustr ''Hello!'')]),
           (ustr ''temperature'', JNum (7 / 10))]))], active_conversation = ustr ''id1''\<rparr> of
      (st', n, fl) \<Rightarrow>
        active_conversation st' = ustr ''id2'' \<and>
        map_of (conversations st') (ustr ''id2'') = Some (JObj [(ustr ''title'', JStr (ustr ''Hi'' @ [55357])),
           (ustr ''messages'',
              JArr [user_message (ustr ''Hi''), assistant_message (ustr ''Hello!'')]),
           (ustr ''temperature'', JNum (7 / 10))]) \<and>
        map_of (conversations st') (ustr ''id1'') = Some (JObj [(ustr ''title'', JStr (ustr ''Hi'' @ [55357])),
           (ustr ''messages'',
              JArr [user_message (ustr ''Hi''), assistant_message (ustr ''Hello!'')]),
           (ustr ''temperature'', JNum (7 / 10))]))"
proof -
  have fd: "finite_decimal (7 / 10)" by code_simp
  have num: "encode_number (7 / 10) = ustr ''0.7''" by code_simp
  have wf: "wf_json (JObj [(ustr ''title'', JStr (ustr ''Hi'' @ [55357])),
           (ustr ''messages'',
              JArr [user_message (ustr ''Hi''), assistant_message (ustr ''Hello!'')]),
           (ustr ''temperature'', JNum (7 / 10))])"
    by (simp add: user_message_def assistant_message_def ustr_def wf_string_def
          high_surrogate_def low_surrogate_def fd)
  have m: "map_of (conversations \<lparr>conversations = [(ustr ''id1'', (JObj [(ustr ''title'', JStr (ustr ''Hi'' @ [55357])),
           (ustr ''messages'',
              JArr [user_message (ustr ''Hi''), assistant_message (ustr ''Hello!'')]),
           (ustr ''temperature'', JNum (7 / 10))]))], active_conversation = ustr ''id1''\<rparr>) (ustr ''id1'') = Some (JObj [(ustr ''title'', JStr (ustr ''Hi'' @ [55357])),
           (ustr ''messages'',
              JArr [user_message (ustr ''Hi''), assistant_message (ustr ''Hello!'')]),
           (ustr ''temperature'', JNum (7 / 10))])"
    by simp
  have ne: "ustr ''id2'' \<noteq> ustr ''id1''" by (simp add: ustr_def)
  have dump: "py_json_dumps (JObj [(ustr ''title'', JStr (ustr ''Hi'' @ [55357])),
           (ustr ''messages'',
              JArr [user_message (ustr ''Hi''), assistant_message (ustr ''Hello!'')]),
           (ustr ''temperature'', JNum (7 / 10))]) =
     ustr ''{'' @
     10 # ustr ''  \"title\": \"Hi'' @ 92 # ustr ''ud83d\",'' @
     10 # ustr ''  \"messages\": ['' @
     10 # ustr ''    {'' @
     10 # ustr ''      \"role\": \"user\",'' @
     10 # ustr ''      \"content\": \"Hi\"'' @
     10 # ustr ''    },'' @
     10 # ustr ''    {'' @
     10 # ustr ''      \"role\": \"assistant\",'' @
     10 # ustr ''      \"content\": \"Hello!\"'' @
     10 # ustr ''    }'' @
     10 # ustr ''  ],'' @
     10 # ustr ''  \"temperature\": 0.7'' @
     10 # ustr ''}''"
    by (simp add: py_json_dumps_def user_message_def assistant_message_def num
          encode_string_def escape_char_def u_escape_def hex_digit_def newline_indent_def
          ustr_def replicate_num)
  from export_import_roundtrip [OF m wf, of "\<lambda>f. ustr ''Expecting value''" "ustr ''id2''"] ne dump
  show ?thesis by simp
qed

section \<open>The invariant over the operations\<close>

lemma conv_ok_new: "conv_ok (new_conversation now)"
  by (simp add: conv_ok_def new_conversation_def models_def system_prompts_def ustr_def)

lemma conv_ok_update_other:
  "k \<noteq> ustr ''model'' \<Longrightarrow> k \<noteq> ustr ''personality'' \<Longrightarrow> k \<noteq> ustr ''temperature''
   \<Longrightarrow> conv_ok (JObj (AList.update k v kvs)) = conv_ok (JObj kvs)"
  by (simp add: conv_ok_def update_conv')

lemma conv_ok_settings:
  assumes "map_of models sel = Some mid" and "personality \<in> fst ` set system_prompts"
    and "0 \<le> t" and "t \<le> 1"
  shows "conv_ok (JObj (AList.update (ustr ''temperature'') (JNum t)
            (AList.update (ustr ''personality'') (JStr personality)
              (AList.update (ustr ''model'') (JStr mid) kvs))))"
proof -
  from assms(1) have "(sel, mid) \<in> set models" by (rule map_of_SomeD)
  then have "mid \<in> snd ` set models" by force
  with assms(2-4) show ?thesis
    by (simp add: conv_ok_def update_conv' key_neq)
qed

lemma store_ok_init:
  assumes "case raw_conversations raw of None \<Rightarrow> True | Some cs \<Rightarrow> \<forall>kv\<in>set cs. conv_ok (snd kv)"
  shows "store_ok (initialize_session_state cid now raw)"
proof -
  define convs where "convs = (case raw_conversations raw of None \<Rightarrow> [] | Some c \<Rightarrow> c)"
  have ok: "\<forall>kv\<in>set convs. conv_ok (snd kv)"
    using assms by (auto simp: convs_def split: option.splits)
  then have "\<forall>kv\<in>set (AList.update cid (new_conversation now) convs). conv_ok (snd kv)"
    using conv_ok_new by (rule all_update)
  with ok show ?thesis
    unfolding store_ok_def initialize_session_state_def convs_def [symmetric] Let_def
    by (cases "raw_active_conversation raw") auto
qed

lemma store_ok_create:
  assumes "store_ok st"
  shows "store_ok (fst (create_new_conversation cid now st))"
proof -
  have "\<forall>kv\<in>set (AList.update cid (new_conversation now) (conversations st)). conv_ok (snd kv)"
    using assms conv_ok_new unfolding store_ok_def by (rule all_update)
  then show ?thesis by (simp add: store_ok_def create_new_conversation_def)
qed

lemma store_ok_clear_any: "store_ok (fst (main_clear_all cid now st))"
  by (simp add: store_ok_def main_clear_all_def conv_ok_new)

lemma delete_conversations:
  "conversations (fst (delete_conversation cid st)) = conversations st \<or>
   conversations (fst (delete_conversation cid st)) = AList.delete cid (conversations st)"
  by (simp add: delete_conversation_def Let_def split: sum.splits)

lemma store_ok_delete:
  assumes "store_ok st"
  shows "store_ok (fst (delete_conversation cid st))"
proof -
  have "\<forall>kv\<in>set (AList.delete cid (conversations st)). conv_ok (snd kv)"
    using assms unfolding store_ok_def by (rule all_delete)
  with assms delete_conversations [of cid st] show ?thesis
    unfolding store_ok_def by auto
qed

lemma import_fail_unchanged:
  "json_load f = Inl e \<Longrightarrow> fst (import_conversation json_load new_id f st) = st"
  by (simp add: import_conversation_def)

lemma store_ok_import_value:
  assumes "store_ok st" and "json_load f = Inr v"
  shows "store_ok (fst (import_conversation json_load new_id f st)) \<longleftrightarrow> conv_ok v"
proof
  assume "store_ok (fst (import_conversation json_load new_id f st))"
  then show "conv_ok v"
    using assms(2) update_mem [of new_id v "conversations st"]
    by (force simp: store_ok_def import_conversation_def)
next
  assume "conv_ok v"
  with assms(1) have "\<forall>kv\<in>set (AList.update new_id v (conversations st)). conv_ok (snd kv)"
    unfolding store_ok_def by (rule all_update)
  then show "store_ok (fst (import_conversation json_load new_id f st))"
    using assms(2) by (simp add: store_ok_def import_conversation_def)
qed

lemma update_settings_result:
  assumes "personality \<in> fst ` set system_prompts" and "0 \<le> t" and "t \<le> 1"
  shows "fst (main_update_settings sel personality t st) = st \<or>
     (\<exists>c. conv_ok c \<and> active_conversation st \<noteq> [] \<and>
          main_update_settings sel personality t st =
            (st\<lparr>conversations := AList.update (active_conversation st) c (conversations st)\<rparr>,
             Continue))"
  using conv_ok_settings [OF _ assms]
  by (auto simp: main_update_settings_def split: option.splits sum.splits json.splits)

lemma store_ok_update_settings:
  assumes ok: "store_ok st"
    and w: "personality \<in> fst ` set system_prompts" "0 \<le> t" "t \<le> 1"
  shows "store_ok (fst (main_update_settings sel personality t st))"
proof -
  consider "fst (main_update_settings sel personality t st) = st"
    | c where "conv_ok c"
        "main_update_settings sel personality t st =
           (st\<lparr>conversations := AList.update (active_conversation st) c (conversations st)\<rparr>,
            Continue)"
    using update_settings_result [OF w, of sel st] by blast
  then show ?thesis
  proof cases
    case 1
    with ok show ?thesis by simp
  next
    case 2
    have "\<forall>kv\<in>set (AList.update (active_conversation st) c (conversations st)). conv_ok (snd kv)"
      using ok 2(1) unfolding store_ok_def by (rule all_update)
    with 2(2) show ?thesis by (simp add: store_ok_def)
  qed
qed

lemma turn_conv_ok: "conv_ok c \<Longrightarrow> conv_ok (fst (main_process_input backend sb input c))"
  by (auto simp: main_process_input_def Let_def conv_ok_update_other key_neq
           split: json.splits option.splits sum.splits if_splits)

text \<open>
  Claim C1, as stated, fails for import: \<open>import_conversation\<close> stores what the file
  holds without looking at it. From a store in order, importing a conversation whose
  model is \<open>"gpt-5"\<close>, whose personality is \<open>"Pirate"\<close> and whose temperature is 2 gives
  a store that is not in order.
\<close>

theorem import_breaks_invariant_counterexample:
  "store_ok \<lparr>conversations = [(ustr ''id1'', new_conversation (ustr ''t1''))],
             active_conversation = ustr ''id1''\<rparr> \<and>
   \<not> store_ok (fst (import_conversation (\<lambda>f. f) (ustr ''id2'')
      (Inr (JObj [(ustr ''title'', JStr (ustr ''Ahoy'')),
                  (ustr ''messages'', JArr []),
                  (ustr ''created_at'', JStr (ustr ''t0'')),
                  (ustr ''model'', JStr (ustr ''gpt-5'')),
                  (ustr ''personality'', JStr (ustr ''Pirate'')),
                  (ustr ''temperature'', JNum 2)]))
      \<lparr>conversations = [(ustr ''id1'', new_conversation (ustr ''t1''))],
       active_conversation = ustr ''id1''\<rparr>))"
  by (simp add: store_ok_def conv_ok_new import_conversation_def)
     (simp add: conv_ok_def models_def ustr_def)

text \<open>
  Claim C1, amended. The first initialization of a session gives a store in order, and
  so does clearing all chats, whatever the store was before: a store that holds
  conversations is replaced by one fresh conversation, and an empty store stays empty.
  From a store in order, a later initialization, creating a conversation, deleting one,
  and updating the settings with values the widgets can return (a personality of the
  table, a temperature between 0 and 1) give a store in order; a turn of the pipeline
  keeps a conversation in order. An import that fails to parse leaves the state as it
  was; an import that parses gives, from a store in order, a store in order exactly when
  the imported value itself is in order, since nothing is validated.
\<close>

theorem invariant_preserved:
   "store_ok (initialize_session_state cid now
       \<lparr>raw_conversations = None, raw_active_conversation = None\<rparr>) \<and>
    store_ok (fst (main_clear_all cid now st)) \<and>
    (conversations st \<noteq> [] \<longrightarrow>
       fst (main_clear_all cid now st) =
         \<lparr>conversations = [(cid, new_conversation now)], active_conversation = cid\<rparr>) \<and>
    (store_ok st \<longrightarrow>
       store_ok (initialize_session_state cid now
         \<lparr>raw_conversations = Some (conversations st), raw_active_conversation = a\<rparr>) \<and>
       store_ok (fst (create_new_conversation cid now st)) \<and>
       store_ok (fst (delete_conversation cid st)) \<and>
       (personality \<in> fst ` set system_prompts \<longrightarrow> 0 \<le> t \<longrightarrow> t \<le> 1 \<longrightarrow>
          store_ok (fst (main_update_settings sel personality t st))) \<and>
       (json_load f = Inr v \<longrightarrow>
          (store_ok (fst (import_conversation json_load cid f st)) \<longleftrightarrow> conv_ok v))) \<and>
    (json_load f = Inl e \<longrightarrow> fst (import_conversation json_load cid f st) = st) \<and>
    (conv_ok c \<longrightarrow> conv_ok (fst (main_process_input backend sb user_input c)))"
proof (intro conjI impI)
  show "store_ok (initialize_session_state cid now
       \<lparr>raw_conversations = None, raw_active_conversation = None\<rparr>)"
    by (rule store_ok_init) simp
  show "store_ok (fst (main_clear_all cid now st))"
    by (rule store_ok_clear_any)
  show "fst (main_clear_all cid now st) =
         \<lparr>conversations = [(cid, new_conversation now)], active_conversation = cid\<rparr>"
    if "conversations st \<noteq> []"
    using that by (simp add: main_clear_all_def)
  show "store_ok (initialize_session_state cid now
       \<lparr>raw_conversations = Some (conversations st), raw_active_conversation = a\<rparr>)"
    if "store_ok st"
    using that by (intro store_ok_init) (simp add: store_ok_def)
  show "store_ok (fst (create_new_conversation cid now st))" if "store_ok st"
    using that by (rule store_ok_create)
  show "store_ok (fst (delete_conversation cid st))" if "store_ok st"
    using that by (rule store_ok_delete)
  show "store_ok (fst (main_update_settings sel personality t st))"
    if "store_ok st" "personality \<in> fst ` set system_prompts" "0 \<le> t" "t \<le> 1"
    using that by (rule store_ok_update_settings)
  show "fst (import_conversation json_load cid f st) = st" if "json_load f = Inl e"
    using that by (rule import_fail_unchanged)
  show "store_ok (fst (import_conversation json_load cid f st)) \<longleftrightarrow> conv_ok v"
    if "store_ok st" "json_load f = Inr v"
    using that by (rule store_ok_import_value)
  show "conv_ok (fst (main_process_input backend sb user_input c))" if "conv_ok c"
    using that by (rule turn_conv_ok)
qed

theorem invariant_preserved_witness:
  "store_ok \<lparr>conversations = [(ustr ''id1'', new_conversation (ustr ''t1''))],
        active_conversation = ustr ''id1''\<rparr> \<and>
   \<not> store_ok \<lparr>conversations = [(ustr ''id1'', JObj [(ustr ''foo'', JNull)])],
        active_conversation = ustr ''id1''\<rparr> \<and>
   store_ok (fst (main_clear_all (ustr ''id2'') (ustr ''t2'') \<lparr>conversations = [(ustr ''id1'', JObj [(ustr ''foo'', JNull)])],
        active_conversation = ustr ''id1''\<rparr>)) \<and>
   fst (main_clear_all (ustr ''id2'') (ustr ''t2'') \<lparr>conversations = [(ustr ''id1'', JObj [(ustr ''foo'', JNull)])],
        active_conversation = ustr ''id1''\<rparr>) =
     \<lparr>conversations = [(ustr ''id2'', new_conversation (ustr ''t2''))],
      active_conversation = ustr ''id2''\<rparr> \<and>
   store_ok (initialize_session_state (ustr ''id1'') (ustr ''t1'')
       \<lparr>raw_conversations = None, raw_active_conversation = None\<rparr>) \<and>
   store_ok (fst (create_new_conversation (ustr ''id2'') (ustr ''t2'') \<lparr>conversations = [(ustr ''id1'', new_conversation (ustr ''t1''))],
        active_conversation = ustr ''id1''\<rparr>)) \<and>
   store_ok (fst (delete_conversation (ustr ''id2'') \<lparr>conversations = [(ustr ''id1'', new_conversation (ustr ''t1''))],
        active_conversation = ustr ''id1''\<rparr>)) \<and>
   store_ok (fst (main_clear_all (ustr ''id2'') (ustr ''t2'') \<lparr>conversations = [(ustr ''id1'', new_conversation (ustr ''t1''))],
        active_conversation = ustr ''id1''\<rparr>)) \<and>
   store_ok (fst (main_update_settings (ustr ''GPT-4o'') (ustr ''Teacher'') (1 / 2) \<lparr>conversations = [(ustr ''id1'', new_conversation (ustr ''t1''))],
        active_conversation = ustr ''id1''\<rparr>)) \<and>
   fst (import_conversation (\<lambda>f. f) (ustr ''id2'') (Inl (ustr ''Expecting value'')) \<lparr>conversations = [(ustr ''id1'', new_conversation (ustr ''t1''))],
        active_conversation = ustr ''id1''\<rparr>) = \<lparr>conversations = [(ustr ''id1'', new_conversation (ustr ''t1''))],
        active_conversation = ustr ''id1''\<rparr> \<and>
   store_ok (fst (import_conversation (\<lambda>f. f) (ustr ''id2'')
                    (Inr (new_conversation (ustr ''t0''))) \<lparr>conversations = [(ustr ''id1'', new_conversation (ustr ''t1''))],
        active_conversation = ustr ''id1''\<rparr>)) \<and>
   conv_ok (fst (main_process_input
                   (\<lambda>req. \<lparr>chunks = [[Some (ustr ''Hello'')]], fault = None\<rparr>) True (ustr ''Hi'')
                   (new_conversation (ustr ''t1''))))"
proof -
  have ok: "store_ok \<lparr>conversations = [(ustr ''id1'', new_conversation (ustr ''t1''))],
        active_conversation = ustr ''id1''\<rparr>"
    by (simp add: store_ok_def conv_ok_new)
  have bad: "\<not> store_ok \<lparr>conversations = [(ustr ''id1'', JObj [(ustr ''foo'', JNull)])],
        active_conversation = ustr ''id1''\<rparr>" "conversations \<lparr>conversations = [(ustr ''id1'', JObj [(ustr ''foo'', JNull)])],
        active_conversation = ustr ''id1''\<rparr> \<noteq> []"
    by (simp_all add: store_ok_def conv_ok_def)
  have p: "ustr ''Teacher'' \<in> fst ` set system_prompts"
    by (simp add: system_prompts_def)
  have t: "(0::rat) \<le> 1 / 2" "(1 / 2 :: rat) \<le> 1"
    by simp_all
  note c0 = conv_ok_new [of "ustr ''t0''"] and c1 = conv_ok_new [of "ustr ''t1''"]
  note i0 = invariant_preserved [where st = "\<lparr>conversations = [(ustr ''id1'', JObj [(ustr ''foo'', JNull)])],
        active_conversation = ustr ''id1''\<rparr>" and cid = "ustr ''id2''" and now = "ustr ''t2''"
        and a = None and v = JNull
        and personality = "ustr ''Teacher''" and t = "1 / 2" and sel = "ustr ''GPT-4o''"
        and json_load = "\<lambda>f. f" and f = "Inl (ustr ''Expecting value'')"
        and e = "ustr ''Expecting value''" and c = "new_conversation (ustr ''t1'')"
        and backend = "\<lambda>req. \<lparr>chunks = [[Some (ustr ''Hello'')]], fault = None\<rparr>"
        and sb = True and user_input = "ustr ''Hi''"]
  note i1 = invariant_preserved [where st = "\<lparr>conversations = [(ustr ''id1'', new_conversation (ustr ''t1''))],
        active_conversation = ustr ''id1''\<rparr>" and cid = "ustr ''id2''" and now = "ustr ''t2''"
        and a = None and v = JNull
        and personality = "ustr ''Teacher''" and t = "1 / 2" and sel = "ustr ''GPT-4o''"
        and json_load = "\<lambda>f. f" and f = "Inl (ustr ''Expecting value'')"
        and e = "ustr ''Expecting value''" and c = "new_conversation (ustr ''t1'')"
        and backend = "\<lambda>req. \<lparr>chunks = [[Some (ustr ''Hello'')]], fault = None\<rparr>"
        and sb = True and user_input = "ustr ''Hi''"]
  note i2 = invariant_preserved [where st = "\<lparr>conversations = [(ustr ''id1'', new_conversation (ustr ''t1''))],
        active_conversation = ustr ''id1''\<rparr>" and cid = "ustr ''id2''" and now = "ustr ''t2''"
        and a = None and e = "[]"
        and personality = "ustr ''Teacher''" and t = "1 / 2" and sel = "ustr ''GPT-4o''"
        and json_load = "\<lambda>f. f" and f = "Inr (new_conversation (ustr ''t0''))"
        and v = "new_conversation (ustr ''t0'')" and c = "new_conversation (ustr ''t1'')"
        and backend = "\<lambda>req. \<lparr>chunks = [[Some (ustr ''Hello'')]], fault = None\<rparr>"
        and sb = True and user_input = "ustr ''Hi''"]
  note i3 = invariant_preserved [where st = "\<lparr>conversations = [(ustr ''id1'', new_conversation (ustr ''t1''))],
        active_conversation = ustr ''id1''\<rparr>" and cid = "ustr ''id1''" and now = "ustr ''t1''"
        and a = None and e = "[]" and v = JNull
        and personality = "ustr ''Teacher''" and t = "1 / 2" and sel = "ustr ''GPT-4o''"
        and json_load = "\<lambda>f. f" and f = "Inr (new_conversation (ustr ''t0''))"
        and c = "new_conversation (ustr ''t1'')"
        and backend = "\<lambda>req. \<lparr>chunks = [[Some (ustr ''Hello'')]], fault = None\<rparr>"
        and sb = True and user_input = "ustr ''Hi''"]
  show ?thesis
    using ok bad p t c0 c1 i0 i1 i2 i3 by blast
qed

section \<open>A turn of the conversation\<close>

lemma title_of_user:
  "get_conversation_title (JArr [user_message u]) =
     Inr (py_strip (take 30 u) @ (if 30 < length u then ustr ''...'' else []))"
  by (simp add: get_conversation_title_def user_message_def ustr_def)

lemma generate_response_present:
  assumes "map_of kvs (ustr ''model'') = Some m" and "map_of kvs (ustr ''temperature'') = Some t"
  shows "generate_response backend msgs kvs =
     concat (fst (stream_response
        (backend \<lparr>req_messages = msgs, req_model = m, req_temperature = t\<rparr>)))"
  using assms
    stream_response_no_raise [of "backend \<lparr>req_messages = msgs, req_model = m, req_temperature = t\<rparr>"]
  by (auto simp: generate_response_def split: prod.splits option.splits)

lemma prepare_messages_ok:
  assumes "map_of kvs (ustr ''messages'') = Some (JArr ms)"
    and "map_of kvs (ustr ''personality'') = Some (JStr p)"
    and "map_of system_prompts p = Some prompt"
  shows "prepare_messages (JObj kvs) = Inr (system_message prompt # last20 ms)"
  using assms by (simp add: prepare_messages_def lookup_system_prompt_def)

lemma turn_result:
  assumes "py_strip user_input \<noteq> []"
    and "map_of kvs (ustr ''messages'') = Some (JArr ms)"
    and "map_of kvs (ustr ''personality'') = Some (JStr p)"
    and "map_of system_prompts p = Some prompt"
  shows "\<exists>kvs2.
     (\<forall>k. k \<noteq> ustr ''messages'' \<longrightarrow> k \<noteq> ustr ''title'' \<longrightarrow> map_of kvs2 k = map_of kvs k) \<and>
     main_process_input backend True user_input (JObj kvs) =
       (JObj (AList.update (ustr ''messages'')
          (JArr (ms @ [user_message (py_strip user_input)] @
             [assistant_message (generate_response backend
                (system_message prompt # last20 (ms @ [user_message (py_strip user_input)])) kvs2)]))
          kvs2), Rerun)"
proof -
  define ms1 where "ms1 = ms @ [user_message (py_strip user_input)]"
  define kvs1 where "kvs1 = AList.update (ustr ''messages'') (JArr ms1) kvs"
  define kvs2 where "kvs2 = (if ms = [] then
      AList.update (ustr ''title'')
        (JStr (py_strip (take 30 (py_strip user_input)) @
               (if 30 < length (py_strip user_input) then ustr ''...'' else []))) kvs1
      else kvs1)"
  have oth: "\<forall>k. k \<noteq> ustr ''messages'' \<longrightarrow> k \<noteq> ustr ''title'' \<longrightarrow> map_of kvs2 k = map_of kvs k"
    by (simp add: kvs2_def kvs1_def update_conv')
  have m2: "map_of kvs2 (ustr ''messages'') = Some (JArr ms1)"
    by (simp add: kvs2_def kvs1_def update_conv' key_neq)
  have p2: "map_of kvs2 (ustr ''personality'') = Some (JStr p)"
    using assms(3) by (simp add: oth key_neq)
  have prep: "prepare_messages (JObj kvs2) = Inr (system_message prompt # last20 ms1)"
    using m2 p2 assms(4) by (rule prepare_messages_ok)
  have "main_process_input backend True user_input (JObj kvs) =
       (JObj (AList.update (ustr ''messages'')
          (JArr (ms1 @ [assistant_message (generate_response backend
                (system_message prompt # last20 ms1) kvs2)])) kvs2), Rerun)"
  proof (cases "ms = []")
    case True
    then have t: "get_conversation_title (JArr ms1) =
       Inr (py_strip (take 30 (py_strip user_input)) @
               (if 30 < length (py_strip user_input) then ustr ''...'' else []))"
      by (simp add: ms1_def title_of_user)
    show ?thesis
      using assms(1,2) True prep t unfolding ms1_def kvs1_def kvs2_def
      by (simp add: main_process_input_def Let_def)
  next
    case False
    then have l: "length ms1 \<noteq> 1" by (simp add: ms1_def)
    show ?thesis
      using assms(1,2) False prep l unfolding ms1_def kvs1_def kvs2_def
      by (simp add: main_process_input_def Let_def)
  qed
  with oth show ?thesis unfolding ms1_def by auto
qed

lemma turn_rerun:
  assumes "main_process_input backend sb user_input c = (c', Rerun)"
  shows "sb \<and> py_strip user_input \<noteq> [] \<and>
    (\<exists>ms a. py_getitem c (ustr ''messages'') = Inr (JArr ms) \<and>
       py_getitem c' (ustr ''messages'') =
         Inr (JArr (ms @ [user_message (py_strip user_input), assistant_message a])))"
  using assms
  by (auto simp: main_process_input_def Let_def update_conv'
           split: json.splits option.splits sum.splits if_splits)


lemma turn_messages:
  assumes "py_strip user_input \<noteq> []"
    and "map_of kvs (ustr ''messages'') = Some (JArr ms)"
    and "map_of kvs (ustr ''personality'') = Some (JStr p)"
    and "map_of system_prompts p = Some prompt"
    and "map_of kvs (ustr ''model'') = Some m"
    and "map_of kvs (ustr ''temperature'') = Some t"
  shows "\<exists>kvs'. main_process_input backend True user_input (JObj kvs) = (JObj kvs', Rerun) \<and>
     map_of kvs' (ustr ''messages'') =
       Some (JArr (ms @ [user_message (py_strip user_input),
          assistant_message (concat (fst (stream_response (backend
            \<lparr>req_messages =
               system_message prompt # last20 (ms @ [user_message (py_strip user_input)]),
             req_model = m, req_temperature = t\<rparr>))))]))"
proof -
  from turn_result [OF assms(1-4), of backend] obtain kvs2 where
    oth: "\<forall>k. k \<noteq> ustr ''messages'' \<longrightarrow> k \<noteq> ustr ''title'' \<longrightarrow> map_of kvs2 k = map_of kvs k"
    and res: "main_process_input backend True user_input (JObj kvs) =
       (JObj (AList.update (ustr ''messages'')
          (JArr (ms @ [user_message (py_strip user_input)] @
             [assistant_message (generate_response backend
                (system_message prompt # last20 (ms @ [user_message (py_strip user_input)])) kvs2)]))
          kvs2), Rerun)"
    by blast
  have "map_of kvs2 (ustr ''model'') = Some m" "map_of kvs2 (ustr ''temperature'') = Some t"
    using assms(5,6) by (simp_all add: oth key_neq)
  then have "generate_response backend
        (system_message prompt # last20 (ms @ [user_message (py_strip user_input)])) kvs2 =
      concat (fst (stream_response (backend
            \<lparr>req_messages =
               system_message prompt # last20 (ms @ [user_message (py_strip user_input)]),
             req_model = m, req_temperature = t\<rparr>)))"
    by (rule generate_response_present)
  with res show ?thesis by (simp add: update_conv')
qed

lemmas turn_eval =
  main_process_input_def new_conversation_def get_conversation_title_def
  prepare_messages_def lookup_system_prompt_def generate_response_def stream_response_def
  system_prompts_def user_message_def assistant_message_def system_message_def
  last20_def error_marker_def cross_mark_def py_strip_def isspace_def ustr_def Let_def

text \<open>
  Claim C5, as stated, fails: after a fault in the middle of the stream the assistant
  message does not begin with the error marker. With a backend that delivers \<open>"Hel"\<close>
  and then fails with \<open>"timeout"\<close>, the message stored is \<open>"Hel"\<close> followed by the
  marker and \<open>"timeout"\<close>.
\<close>

theorem turn_fault_prefix_counterexample:
  "main_process_input
     (\<lambda>req. \<lparr>chunks = [[Some (ustr ''Hel'')]], fault = Some (ustr ''timeout'')\<rparr>)
     True (ustr ''Hi'') (new_conversation (ustr ''t1'')) =
   (JObj [(ustr ''title'', JStr (ustr ''Hi'')),
          (ustr ''messages'',
             JArr [user_message (ustr ''Hi''),
                   assistant_message (ustr ''Hel'' @ error_marker @ ustr ''timeout'')]),
          (ustr ''created_at'', JStr (ustr ''t1'')),
          (ustr ''model'', JStr (ustr ''anthropic/claude-sonnet-4'')),
          (ustr ''personality'', JStr (ustr ''Assistant'')),
          (ustr ''temperature'', JNum (7 / 10))], Rerun) \<and>
   take (length error_marker) (ustr ''Hel'' @ error_marker @ ustr ''timeout'') \<noteq> error_marker"
  by (simp add: turn_eval)

text \<open>
  Claim C5, amended. In a turn on a conversation with a list of messages, a personality
  of the table, a model and a temperature, when the backend answers the request with a
  stream that raises \<open>e\<close> after its chunks, the turn ends normally and the conversation's
  messages are the old ones, the user message, and an assistant message whose content is
  the text delivered before the fault followed by \<open>error_marker @ str(e)\<close>. So the
  failure is kept in the history, and the message begins with the marker when no text
  came before the fault.
\<close>

theorem turn_backend_fault:
  assumes "py_strip user_input \<noteq> []"
    and "map_of kvs (ustr ''messages'') = Some (JArr ms)"
    and "map_of kvs (ustr ''personality'') = Some (JStr p)"
    and "map_of system_prompts p = Some prompt"
    and "map_of kvs (ustr ''model'') = Some m"
    and "map_of kvs (ustr ''temperature'') = Some t"
    and r: "backend \<lparr>req_messages =
               system_message prompt # last20 (ms @ [user_message (py_strip user_input)]),
             req_model = m, req_temperature = t\<rparr> = r"
    and f: "fault r = Some e" "[] \<notin> set (chunks r)"
  shows "\<exists>kvs'. main_process_input backend True user_input (JObj kvs) = (JObj kvs', Rerun) \<and>
     map_of kvs' (ustr ''messages'') =
       Some (JArr (ms @ [user_message (py_strip user_input),
          assistant_message (concat (List.map_filter hd (chunks r)) @ error_marker @ e)]))"
proof -
  have "stream_response r = (List.map_filter hd (chunks r) @ [error_marker @ e], None)"
    using f by (simp add: stream_response_def stream_body_choices)
  then have "concat (fst (stream_response r)) =
      concat (List.map_filter hd (chunks r)) @ error_marker @ e"
    by simp
  with turn_messages [OF assms(1-6), of backend] r show ?thesis
    by auto
qed

theorem turn_backend_fault_witness:
  "\<exists>kvs'. main_process_input
       (\<lambda>req. \<lparr>chunks = [[Some (ustr ''Hel'')], [None]], fault = Some (ustr ''timeout'')\<rparr>)
       True (ustr ''Hi'')
       (JObj [(ustr ''messages'', JArr [user_message (ustr ''a''), assistant_message (ustr ''b'')]),
              (ustr ''model'', JStr (ustr ''openai/gpt-4o'')),
              (ustr ''personality'', JStr (ustr ''Teacher'')),
              (ustr ''temperature'', JNum (1 / 2))]) = (JObj kvs', Rerun) \<and>
     map_of kvs' (ustr ''messages'') =
       Some (JArr [user_message (ustr ''a''), assistant_message (ustr ''b''),
                   user_message (ustr ''Hi''),
                   assistant_message (ustr ''Hel'' @ error_marker @ ustr ''timeout'')])"
  using turn_backend_fault [where
      backend = "\<lambda>req. \<lparr>chunks = [[Some (ustr ''Hel'')], [None]], fault = Some (ustr ''timeout'')\<rparr>"
      and r = "\<lparr>chunks = [[Some (ustr ''Hel'')], [None]], fault = Some (ustr ''timeout'')\<rparr>"
      and e = "ustr ''timeout''" and user_input = "ustr ''Hi''"
      and kvs = "[(ustr ''messages'', JArr [user_message (ustr ''a''), assistant_message (ustr ''b'')]),
              (ustr ''model'', JStr (ustr ''openai/gpt-4o'')),
              (ustr ''personality'', JStr (ustr ''Teacher'')),
              (ustr ''temperature'', JNum (1 / 2))]"
      and ms = "[user_message (ustr ''a''), assistant_message (ustr ''b'')]"
      and p = "ustr ''Teacher''" and m = "JStr (ustr ''openai/gpt-4o'')" and t = "JNum (1 / 2)"
      and prompt = "ustr ''You are a patient and knowledgeable teacher. Explain concepts clearly with examples and encourage learning.''"]
  by (simp add: system_prompts_def py_strip_def isspace_def ustr_def List.map_filter_simps)

lemma last20_facts:
  "length (last20 xs) = min 20 (length xs)"
  "xs = take (length xs - 20) xs @ last20 xs"
  "last (last20 (ys @ [y])) = y"
  by (auto simp: last20_def)

text \<open>
  Claim C7. In a turn on a conversation with a list of messages, a personality of the
  table, a model and a temperature, the backend is called with exactly this request: one
  system message holding the system prompt of the conversation's personality, followed
  by the slice \<open>[-20:]\<close> of the messages after the user message was appended, with the
  conversation's model and temperature. The slice has 20 entries, or all of them when
  there are fewer; it is the end of the message list in its original order, whatever the
  roles; and its last entry is the user message just appended. The reply stored is the
  one the backend gives to this request.
\<close>

theorem request_context_window:
  assumes "py_strip user_input \<noteq> []"
    and "map_of kvs (ustr ''messages'') = Some (JArr ms)"
    and "map_of kvs (ustr ''personality'') = Some (JStr p)"
    and "map_of system_prompts p = Some prompt"
    and "map_of kvs (ustr ''model'') = Some m"
    and "map_of kvs (ustr ''temperature'') = Some t"
  shows "let ms1 = ms @ [user_message (py_strip user_input)];
             request = \<lparr>req_messages = system_message prompt # last20 ms1,
                        req_model = m, req_temperature = t\<rparr>
         in (\<exists>kvs'. main_process_input backend True user_input (JObj kvs) = (JObj kvs', Rerun) \<and>
               map_of kvs' (ustr ''messages'') =
                 Some (JArr (ms1 @
                   [assistant_message (concat (fst (stream_response (backend request))))]))) \<and>
            length (last20 ms1) = min 20 (length ms1) \<and>
            ms1 = take (length ms1 - 20) ms1 @ last20 ms1 \<and>
            last (last20 ms1) = user_message (py_strip user_input)"
  using turn_messages [OF assms, of backend]
    last20_facts(1,2) [of "ms @ [user_message (py_strip user_input)]"]
    last20_facts(3) [of ms "user_message (py_strip user_input)"]
  unfolding Let_def by auto

theorem request_context_window_witness:
  "\<exists>kvs'. main_process_input (\<lambda>req. \<lparr>chunks = [[Some (replicate (length (req_messages req)) 65)]], fault = None\<rparr>) True (ustr ''Hi'') (JObj [(ustr ''messages'', JArr (replicate 25 (assistant_message (ustr ''old'')))),
        (ustr ''model'', JStr (ustr ''openai/gpt-4o'')),
        (ustr ''personality'', JStr (ustr ''Teacher'')),
        (ustr ''temperature'', JNum (1 / 2))]) = (JObj kvs', Rerun) \<and>
     map_of kvs' (ustr ''messages'') =
       Some (JArr (replicate 25 (assistant_message (ustr ''old'')) @
                   [user_message (ustr ''Hi''), assistant_message (replicate 21 65)]))"
  using request_context_window [where backend = "(\<lambda>req. \<lparr>chunks = [[Some (replicate (length (req_messages req)) 65)]], fault = None\<rparr>)" and user_input = "ustr ''Hi''"
      and kvs = "[(ustr ''messages'', JArr (replicate 25 (assistant_message (ustr ''old'')))),
        (ustr ''model'', JStr (ustr ''openai/gpt-4o'')),
        (ustr ''personality'', JStr (ustr ''Teacher'')),
        (ustr ''temperature'', JNum (1 / 2))]" and ms = "replicate 25 (assistant_message (ustr ''old''))"
      and p = "ustr ''Teacher''" and m = "JStr (ustr ''openai/gpt-4o'')" and t = "JNum (1 / 2)"
      and prompt = "ustr ''You are a patient and knowledgeable teacher. Explain concepts clearly with examples and encourage learning.''"]
  by (simp add: system_prompts_def py_strip_def isspace_def ustr_def Let_def last20_def
        stream_response_def replicate_Suc [symmetric] del: replicate_Suc)

text \<open>
  Claim C8. When the input is empty after trimming, the block does nothing: the
  conversation is unchanged and no rerun is asked for. Whenever the block completes
  (it reaches \<open>st.rerun()\<close>), the input was not blank and the conversation's messages are
  the old ones followed by exactly two more, the user message with the trimmed input and
  one assistant message. And the block does complete, whatever the backend does, on a
  conversation with a list of messages and a personality of the table.
\<close>

theorem turn_message_count:
  "(py_strip user_input = [] \<longrightarrow>
      main_process_input backend sb user_input c = (c, Continue)) \<and>
   (main_process_input backend sb user_input c = (c', Rerun) \<longrightarrow>
      py_strip user_input \<noteq> [] \<and>
      (\<exists>ms a. py_getitem c (ustr ''messages'') = Inr (JArr ms) \<and>
         py_getitem c' (ustr ''messages'') =
           Inr (JArr (ms @ [user_message (py_strip user_input), assistant_message a])) \<and>
         length (ms @ [user_message (py_strip user_input), assistant_message a]) = length ms + 2)) \<and>
   (py_strip user_input \<noteq> [] \<longrightarrow>
    map_of kvs (ustr ''messages'') = Some (JArr ms0) \<longrightarrow>
    map_of kvs (ustr ''personality'') = Some (JStr p) \<longrightarrow>
    map_of system_prompts p = Some prompt \<longrightarrow>
      snd (main_process_input backend True user_input (JObj kvs)) = Rerun)"
proof (intro conjI impI)
  assume "py_strip user_input = []"
  then show "main_process_input backend sb user_input c = (c, Continue)"
    by (simp add: main_process_input_def)
next
  assume r: "main_process_input backend sb user_input c = (c', Rerun)"
  from turn_rerun [OF r] show "py_strip user_input \<noteq> []" by simp
  from turn_rerun [OF r] show "\<exists>ms a. py_getitem c (ustr ''messages'') = Inr (JArr ms) \<and>
         py_getitem c' (ustr ''messages'') =
           Inr (JArr (ms @ [user_message (py_strip user_input), assistant_message a])) \<and>
         length (ms @ [user_message (py_strip user_input), assistant_message a]) = length ms + 2"
    by auto
next
  assume "py_strip user_input \<noteq> []" "map_of kvs (ustr ''messages'') = Some (JArr ms0)"
    "map_of kvs (ustr ''personality'') = Some (JStr p)" "map_of system_prompts p = Some prompt"
  from turn_result [OF this, of backend]
  show "snd (main_process_input backend True user_input (JObj kvs)) = Rerun"
    by auto
qed


theorem turn_message_count_witness:
  "main_process_input (\<lambda>req. \<lparr>chunks = [[Some (ustr ''Hel'')], [Some (ustr ''lo!'')]], fault = None\<rparr>) True (ustr ''Hi'') (new_conversation (ustr ''t1'')) = ((JObj [(ustr ''title'', JStr (ustr ''Hi'')),
          (ustr ''messages'',
             JArr [user_message (ustr ''Hi''), assistant_message (ustr ''Hello!'')]),
          (ustr ''created_at'', JStr (ustr ''t1'')),
          (ustr ''model'', JStr (ustr ''anthropic/claude-sonnet-4'')),
          (ustr ''personality'', JStr (ustr ''Assistant'')),
          (ustr ''temperature'', JNum (7 / 10))]), Rerun) \<and>
   main_process_input (\<lambda>req. \<lparr>chunks = [[Some (ustr ''Hel'')], [Some (ustr ''lo!'')]], fault = None\<rparr>) True (ustr ''  '') (new_conversation (ustr ''t1'')) =
     (new_conversation (ustr ''t1''), Continue) \<and>
   py_getitem (JObj [(ustr ''title'', JStr (ustr ''Hi'')),
          (ustr ''messages'',
             JArr [user_message (ustr ''Hi''), assistant_message (ustr ''Hello!'')]),
          (ustr ''created_at'', JStr (ustr ''t1'')),
          (ustr ''model'', JStr (ustr ''anthropic/claude-sonnet-4'')),
          (ustr ''personality'', JStr (ustr ''Assistant'')),
          (ustr ''temperature'', JNum (7 / 10))]) (ustr ''messages'') =
     Inr (JArr [user_message (ustr ''Hi''), assistant_message (ustr ''Hello!'')])"
proof -
  have eq: "main_process_input (\<lambda>req. \<lparr>chunks = [[Some (ustr ''Hel'')], [Some (ustr ''lo!'')]], fault = None\<rparr>) True (ustr ''Hi'') (new_conversation (ustr ''t1'')) = ((JObj [(ustr ''title'', JStr (ustr ''Hi'')),
          (ustr ''messages'',
             JArr [user_message (ustr ''Hi''), assistant_message (ustr ''Hello!'')]),
          (ustr ''created_at'', JStr (ustr ''t1'')),
          (ustr ''model'', JStr (ustr ''anthropic/claude-sonnet-4'')),
          (ustr ''personality'', JStr (ustr ''Assistant'')),
          (ustr ''temperature'', JNum (7 / 10))]), Rerun)"
    by (simp add: turn_eval)
  have blank: "py_strip (ustr ''  '') = []" and hi: "py_strip (ustr ''Hi'') \<noteq> []"
    by (simp_all add: py_strip_def isspace_def ustr_def)
  from turn_message_count [where backend = "(\<lambda>req. \<lparr>chunks = [[Some (ustr ''Hel'')], [Some (ustr ''lo!'')]], fault = None\<rparr>)" and sb = True and user_input = "ustr ''  ''"
      and c = "new_conversation (ustr ''t1'')"] blank
  have a: "main_process_input (\<lambda>req. \<lparr>chunks = [[Some (ustr ''Hel'')], [Some (ustr ''lo!'')]], fault = None\<rparr>) True (ustr ''  '') (new_conversation (ustr ''t1'')) =
     (new_conversation (ustr ''t1''), Continue)"
    by blast
  from turn_message_count [where backend = "(\<lambda>req. \<lparr>chunks = [[Some (ustr ''Hel'')], [Some (ustr ''lo!'')]], fault = None\<rparr>)" and sb = True and user_input = "ustr ''Hi''"
      and c = "new_conversation (ustr ''t1'')" and c' = "(JObj [(ustr ''title'', JStr (ustr ''Hi'')),
          (ustr ''messages'',
             JArr [user_message (ustr ''Hi''), assistant_message (ustr ''Hello!'')]),
          (ustr ''created_at'', JStr (ustr ''t1'')),
          (ustr ''model'', JStr (ustr ''anthropic/claude-sonnet-4'')),
          (ustr ''personality'', JStr (ustr ''Assistant'')),
          (ustr ''temperature'', JNum (7 / 10))])"] eq
  obtain ms a where
    "py_getitem (new_conversation (ustr ''t1'')) (ustr ''messages'') = Inr (JArr ms)"
    "py_getitem (JObj [(ustr ''title'', JStr (ustr ''Hi'')),
          (ustr ''messages'',
             JArr [user_message (ustr ''Hi''), assistant_message (ustr ''Hello!'')]),
          (ustr ''created_at'', JStr (ustr ''t1'')),
          (ustr ''model'', JStr (ustr ''anthropic/claude-sonnet-4'')),
          (ustr ''personality'', JStr (ustr ''Assistant'')),
          (ustr ''temperature'', JNum (7 / 10))]) (ustr ''messages'') =
       Inr (JArr (ms @ [user_message (py_strip (ustr ''Hi'')), assistant_message a]))"
    by blast
  then have b: "py_getitem (JObj [(ustr ''title'', JStr (ustr ''Hi'')),
          (ustr ''messages'',
             JArr [user_message (ustr ''Hi''), assistant_message (ustr ''Hello!'')]),
          (ustr ''created_at'', JStr (ustr ''t1'')),
          (ustr ''model'', JStr (ustr ''anthropic/claude-sonnet-4'')),
          (ustr ''personality'', JStr (ustr ''Assistant'')),
          (ustr ''temperature'', JNum (7 / 10))]) (ustr ''messages'') =
     Inr (JArr [user_message (ustr ''Hi''), assistant_message (ustr ''Hello!'')])"
    by (simp add: ustr_def)
  from eq a b show ?thesis by blast
qed

end
